theory Spec2Isabelle
  imports Main "HOL-Library.Sublist"
begin

section \<open>Strings\<close>

text \<open>
  A string is the list of its code units, over the alphabet \<^typ>\<open>char\<close>.
  \<open>String.prototype.trim\<close> strips white space at both ends; the white space that
  the alphabet can express is TAB, LF, VT, FF, CR, SP and NBSP.
  \<open>String.prototype.includes\<close> is the substring test.
\<close>

definition is_space :: "char \<Rightarrow> bool" where
  "is_space c = (of_char c \<in> {9, 10, 11, 12, 13, 32, 160 :: nat})"

definition trim :: "string \<Rightarrow> string" where
  "trim s = rev (dropWhile is_space (rev (dropWhile is_space s)))"

fun includes_str :: "string \<Rightarrow> string \<Rightarrow> bool" where
  "includes_str [] sub = (sub = [])"
| "includes_str (c # cs) sub = (prefix sub (c # cs) \<or> includes_str cs sub)"

fun join :: "string \<Rightarrow> string list \<Rightarrow> string" where
  "join sep [] = []"
| "join sep [s] = s"
| "join sep (s # t # ss) = s @ sep @ join sep (t # ss)"

section \<open>Values of the host\<close>

text \<open>
  What \<open>JSON.parse\<close> can return. A number is kept as the text that \<open>ToString\<close>
  gives for it (so zero, of either sign, is \<open>''0''\<close>). \<open>undefined\<close>, which
  \<open>JSON.parse\<close> never returns but a property read can, is \<open>None\<close> of
  \<^typ>\<open>'a option\<close>.
\<close>

datatype jsval =
    JNull
  | JBool bool
  | JNum string
  | JStr string
  | JArr "jsval list"
  | JObj "(string \<times> jsval) list"

text \<open>
  The errors the engine itself raises in the code below: \<open>JSON.parse\<close> on text that
  is no JSON, a property read on \<open>null\<close> or \<open>undefined\<close>, a call of something
  that is no function, and the conversion to a string of an object whose \<open>toString\<close> is
  no function. Each is an \<open>Error\<close> object; its message is the engine's.
\<close>

datatype engine_error =
    SyntaxError string
  | ReadOfNullish string
  | NotAFunction string
  | NotPrimitive

text \<open>A thrown value: an \<open>Error\<close> object with its message, or anything else.\<close>

datatype thrown = ErrorObj string | NonError

text \<open>
  The host functions that the source calls and does not define: \<open>JSON.parse\<close>
  (\<open>None\<close> when it throws a SyntaxError) and the messages of the engine's errors.
\<close>

record host =
  JSON_parse :: "string \<Rightarrow> jsval option"
  engine_message :: "engine_error \<Rightarrow> string"

definition raise :: "host \<Rightarrow> engine_error \<Rightarrow> thrown" where
  "raise h e = ErrorObj (engine_message h e)"

text \<open>Truthiness, as \<open>if (x)\<close> and \<open>!x\<close> read it.\<close>

fun truthy :: "jsval \<Rightarrow> bool" where
  "truthy JNull = False"
| "truthy (JBool b) = b"
| "truthy (JNum r) = (r \<noteq> ''0'')"
| "truthy (JStr s) = (s \<noteq> [])"
| "truthy (JArr xs) = True"
| "truthy (JObj kvs) = True"

fun truthy_opt :: "jsval option \<Rightarrow> bool" where
  "truthy_opt None = False"
| "truthy_opt (Some v) = truthy v"

text \<open>
  \<open>x.name\<close> for a name that no prototype defines (\<open>hasCorrections\<close>,
  \<open>corrections\<close>, \<open>type\<close>, \<open>suggestion\<close>, \<open>explanation\<close>):
  an own property of an object, \<open>undefined\<close> on every other value, a TypeError
  on \<open>null\<close> and \<open>undefined\<close>.
\<close>

fun get_prop :: "jsval option \<Rightarrow> string \<Rightarrow> engine_error + jsval option" where
  "get_prop None name = Inl (ReadOfNullish name)"
| "get_prop (Some JNull) name = Inl (ReadOfNullish name)"
| "get_prop (Some (JObj kvs)) name = Inr (map_of kvs name)"
| "get_prop (Some v) name = Inr None"

text \<open>\<open>x.length === 0\<close>: arrays and strings have a length, an object may own one.\<close>

fun length_is_zero :: "jsval option \<Rightarrow> engine_error + bool" where
  "length_is_zero None = Inl (ReadOfNullish ''length'')"
| "length_is_zero (Some JNull) = Inl (ReadOfNullish ''length'')"
| "length_is_zero (Some (JArr xs)) = Inr (xs = [])"
| "length_is_zero (Some (JStr s)) = Inr (s = [])"
| "length_is_zero (Some (JObj kvs)) = Inr (map_of kvs ''length'' = Some (JNum ''0''))"
| "length_is_zero (Some v) = Inr False"

text \<open>
  \<open>ToString\<close>, as a template literal applies it. An array is joined with commas,
  \<open>null\<close> elements giving the empty string; an object is \<open>[object Object]\<close>
  unless it owns a \<open>toString\<close>, which, coming from JSON, is no function.
\<close>

fun ToString :: "jsval \<Rightarrow> engine_error + string"
  and ToStrings :: "jsval list \<Rightarrow> engine_error + string list" where
  "ToString JNull = Inr ''null''"
| "ToString (JBool b) = Inr (if b then ''true'' else ''false'')"
| "ToString (JNum r) = Inr r"
| "ToString (JStr s) = Inr s"
| "ToString (JArr xs) =
     (case ToStrings xs of Inl e \<Rightarrow> Inl e | Inr ss \<Rightarrow> Inr (join '','' ss))"
| "ToString (JObj kvs) =
     (if map_of kvs ''toString'' = None then Inr ''[object Object]'' else Inl NotPrimitive)"
| "ToStrings [] = Inr []"
| "ToStrings (x # xs) =
     (case (if x = JNull then Inr [] else ToString x) of
        Inl e \<Rightarrow> Inl e
      | Inr s \<Rightarrow> (case ToStrings xs of Inl e \<Rightarrow> Inl e | Inr ss \<Rightarrow> Inr (s # ss)))"

fun ToString_opt :: "jsval option \<Rightarrow> engine_error + string" where
  "ToString_opt None = Inr ''undefined''"
| "ToString_opt (Some v) = ToString v"

section \<open>Data of the chat application\<close>

text \<open>
  The repository holds three versions of one chat application, each a class \<open>ChatApp\<close>:
  \<^item> \<open>Plain\<close>: \<open>src/app.ts\<close>, a conversation with no system message and no corrections;
  \<^item> \<open>Notes\<close>: the first file of \<open>src/unnamed/part_000\<close>, where the corrections are
    free text;
  \<^item> \<open>Structured\<close>: the second file of \<open>src/unnamed/part_000\<close>, where the corrections
    are JSON constrained by a schema.
  The three share their fields and most of their methods; a parameter of type
  \<open>variant\<close> selects the file where they differ.
\<close>

datatype variant = Plain | Notes | Structured

datatype role = System | User | Assistant

record message =
  role :: role
  content :: string

text \<open>
  A chunk of the streamed completion and the non-streamed completion, with the optional
  parts that the source reads through \<open>?.\<close>.
\<close>

datatype delta = Delta "string option"
datatype chunk_choice = ChunkChoice "delta option"
datatype chunk = Chunk "chunk_choice list"

datatype reply_message = ReplyMessage "string option"
datatype reply_choice = ReplyChoice "reply_message option"
datatype completion = Completion "reply_choice list"

text \<open>\<open>chunk.choices[0]?.delta?.content || ''\<close>\<close>

fun delta_of :: "chunk \<Rightarrow> string" where
  "delta_of (Chunk []) = []"
| "delta_of (Chunk (ChunkChoice None # cs)) = []"
| "delta_of (Chunk (ChunkChoice (Some (Delta None)) # cs)) = []"
| "delta_of (Chunk (ChunkChoice (Some (Delta (Some text))) # cs)) = text"

text \<open>\<open>response.choices[0]?.message?.content\<close>, \<open>None\<close> for \<open>undefined\<close> and \<open>null\<close>.\<close>

fun content_of :: "completion \<Rightarrow> string option" where
  "content_of (Completion []) = None"
| "content_of (Completion (ReplyChoice None # cs)) = None"
| "content_of (Completion (ReplyChoice (Some (ReplyMessage c)) # cs)) = c"

text \<open>How an awaited request ends.\<close>

datatype 'a settled = Rejected thrown | Fulfilled 'a

text \<open>
  A child of \<open>messagesContainer\<close>: the \<open>div\<close> that \<open>createMessageElement\<close> builds,
  with the text of its \<open>message-content\<close> child and the texts of the corrections
  panels appended to it (each comes with its badge, and starts hidden). An element is
  referred to by its position in the container, which never shrinks.
\<close>

record element =
  el_role :: role
  textContent :: string
  corrections :: "string list"

text \<open>
  Every call of \<open>openai.chat.completions.create\<close> is recorded, with the model and the
  part of the payload that depends on the state.
\<close>

datatype request =
    StreamRequest string "message list"
  | CorrectionRequest string string

text \<open>The promise that a call of \<open>getCorrections\<close> returns; \<open>null\<close> is \<open>JNull\<close>.\<close>

datatype promise = Pending | Resolved jsval

text \<open>
  The local variables of a suspended call of \<open>sendMessage\<close>, and the \<open>await\<close> at which
  it is suspended. \<open>userMessageElement\<close> is a local variable in \<open>Notes\<close> and
  \<open>Structured\<close> only; in \<open>Plain\<close> the field just remembers where the user's element
  is. \<open>Streaming\<close> carries \<open>fullContent\<close>.
\<close>

record turn =
  correctionsPromise :: "nat option"
  userMessageElement :: nat
  contentDiv :: nat

datatype task =
    Idle
  | AwaitStream turn
  | Streaming turn string
  | AwaitCorrections turn

text \<open>
  The fields of \<open>ChatApp\<close> that carry state, the DOM properties that the methods read and
  write, and the effects on the outside: the stored key, the alerts, \<open>console.error\<close>,
  the timers set, the requests issued and the promises created. Scrolling, focus and the
  height of the text area are left out.
\<close>

record app =
  openai :: "string option"
  messages :: "message list"
  isStreaming :: bool
  messagesContainer :: "element list"
  userInput :: string
  userInput_disabled :: bool
  sendBtn_disabled :: bool
  settingsModal_hidden :: bool
  apiKeyInput :: string
  localStorage :: "string option"
  alerts :: "string list"
  console :: "thrown list"
  timers :: "nat list"
  requests :: "request list"
  promises :: "promise list"
  task :: task

section \<open>Methods shared by the three versions\<close>

definition showSettings :: "app \<Rightarrow> app" where
  "showSettings s = s\<lparr>settingsModal_hidden := False\<rparr>"

definition hideSettings :: "app \<Rightarrow> app" where
  "hideSettings s = s\<lparr>settingsModal_hidden := True\<rparr>"

text \<open>\<open>createMessageElement\<close> returns the new element: its position is the old length.\<close>

definition createMessageElement :: "role \<Rightarrow> string \<Rightarrow> app \<Rightarrow> app" where
  "createMessageElement r c s =
     s\<lparr>messagesContainer :=
         messagesContainer s @ [\<lparr>el_role = r, textContent = c, corrections = []\<rparr>]\<rparr>"

definition loadApiKey :: "app \<Rightarrow> app" where
  "loadApiKey s =
     (case localStorage s of
        None \<Rightarrow> s
      | Some apiKey \<Rightarrow>
          if apiKey \<noteq> [] then s\<lparr>openai := Some apiKey, apiKeyInput := apiKey\<rparr> else s)"

definition saveApiKey :: "app \<Rightarrow> app" where
  "saveApiKey s =
     (let apiKey = trim (apiKeyInput s) in
      if apiKey = [] then s\<lparr>alerts := alerts s @ [''Please enter an API key'']\<rparr>
      else hideSettings (s\<lparr>localStorage := Some apiKey, openai := Some apiKey\<rparr>))"

definition system_prompt :: string where
  "system_prompt = ''You are a friendly and patient Spanish conversation partner helping language learners practice their Spanish. Your role is to:\<newline>\<newline>- Have natural, engaging conversations entirely in Spanish\<newline>- Be warm, approachable, and encouraging\<newline>- Keep the conversation flowing by asking follow-up questions\<newline>- Adapt to the learner's level while gently introducing new vocabulary\<newline>- Discuss a variety of interesting topics\<newline>- Be enthusiastic and make learning feel like chatting with a friend\<newline>\<newline>Remember: You're here to help them practice, so always respond in Spanish and keep the conversation going!''"

definition system_message :: message where
  "system_message = \<lparr>role = System, content = system_prompt\<rparr>"

text \<open>
  \<open>init\<close>: \<open>Notes\<close> and \<open>Structured\<close> push the system message, \<open>Plain\<close> does not.
  The listeners it installs are the events of the last section.
\<close>

definition init :: "variant \<Rightarrow> app \<Rightarrow> app" where
  "init v s =
     (let s1 = loadApiKey s;
          s2 = (if v = Plain then s1 else s1\<lparr>messages := messages s1 @ [system_message]\<rparr>)
      in if openai s2 = None then showSettings s2 else s2)"

text \<open>
  The object before its constructor runs \<open>init\<close>, given what the page and the browser
  hold: the stored key and whether the settings dialog is hidden in the markup.
\<close>

definition blank :: "string option \<Rightarrow> bool \<Rightarrow> app" where
  "blank stored hidden =
     \<lparr>openai = None, messages = [], isStreaming = False, messagesContainer = [],
      userInput = [], userInput_disabled = False, sendBtn_disabled = False,
      settingsModal_hidden = hidden, apiKeyInput = [], localStorage = stored,
      alerts = [], console = [], timers = [], requests = [], promises = [],
      task = Idle\<rparr>"

definition ChatApp :: "variant \<Rightarrow> string option \<Rightarrow> bool \<Rightarrow> app" where
  "ChatApp v stored hidden = init v (blank stored hidden)"

section \<open>One turn\<close>

text \<open>\<open>addMessage\<close>, of \<open>Plain\<close> only: push to the history, then render.\<close>

definition addMessage :: "role \<Rightarrow> string \<Rightarrow> app \<Rightarrow> app" where
  "addMessage r c s =
     createMessageElement r c (s\<lparr>messages := messages s @ [\<lparr>role = r, content = c\<rparr>]\<rparr>)"

text \<open>
  \<open>getCorrections\<close> up to its \<open>await\<close>: with no client the promise is resolved with
  \<open>null\<close> and no request is made; otherwise the request is issued and the promise is
  pending. The promise returned is the last of \<open>promises\<close>.
\<close>

definition getCorrections :: "string \<Rightarrow> app \<Rightarrow> app" where
  "getCorrections userMessage s =
     (if openai s = None then s\<lparr>promises := promises s @ [Resolved JNull]\<rparr>
      else s\<lparr>requests := requests s @ [CorrectionRequest ''gpt-4o-mini'' userMessage],
             promises := promises s @ [Pending]\<rparr>)"

text \<open>
  \<open>sendMessage\<close> up to its first \<open>await\<close>, the one of the streaming request. The
  guards are the same in the three files. \<open>Plain\<close> adds the user's message with
  \<open>addMessage\<close> before it sets \<open>isStreaming\<close>; the two others set \<open>isStreaming\<close>,
  call \<open>getCorrections\<close>, render the user's message and push it.
\<close>

definition sendMessage :: "variant \<Rightarrow> app \<Rightarrow> app" where
  "sendMessage v s =
     (if openai s = None then
        showSettings (s\<lparr>alerts := alerts s @ [''Please set your API key in settings'']\<rparr>)
      else
        let content = trim (userInput s) in
        if content = [] \<or> isStreaming s then s
        else if v = Plain then
          let s1 = addMessage User content s;
              s2 = s1\<lparr>userInput := []\<rparr>;
              s3 = s2\<lparr>isStreaming := True, sendBtn_disabled := True,
                      userInput_disabled := True\<rparr>;
              s4 = createMessageElement Assistant [] s3;
              s5 = s4\<lparr>requests := requests s4 @ [StreamRequest ''gpt-5-mini'' (messages s4)]\<rparr>
          in s5\<lparr>task := AwaitStream
                  \<lparr>correctionsPromise = None,
                   userMessageElement = length (messagesContainer s),
                   contentDiv = length (messagesContainer s3)\<rparr>\<rparr>
        else
          let s1 = s\<lparr>userInput := []\<rparr>;
              s2 = s1\<lparr>isStreaming := True, sendBtn_disabled := True,
                      userInput_disabled := True\<rparr>;
              s3 = getCorrections content s2;
              s4 = createMessageElement User content s3;
              s5 = s4\<lparr>messages := messages s4 @ [\<lparr>role = User, content = content\<rparr>]\<rparr>;
              s6 = createMessageElement Assistant [] s5;
              s7 = s6\<lparr>requests := requests s6 @ [StreamRequest ''gpt-4o-mini'' (messages s6)]\<rparr>
          in s7\<lparr>task := AwaitStream
                  \<lparr>correctionsPromise = Some (length (promises s2)),
                   userMessageElement = length (messagesContainer s3),
                   contentDiv = length (messagesContainer s5)\<rparr>\<rparr>)"

text \<open>
  The body of the \<open>for await\<close> loop, for one chunk: \<open>fullContent += delta\<close>, then
  \<open>contentDiv.textContent = fullContent\<close>.
\<close>

definition set_textContent :: "nat \<Rightarrow> string \<Rightarrow> app \<Rightarrow> app" where
  "set_textContent i text s =
     (if i < length (messagesContainer s) then
        s\<lparr>messagesContainer :=
            (messagesContainer s)[i := (messagesContainer s ! i)\<lparr>textContent := text\<rparr>]\<rparr>
      else s)"

definition on_chunk :: "turn \<Rightarrow> string \<Rightarrow> chunk \<Rightarrow> app \<Rightarrow> app" where
  "on_chunk t fullContent c s =
     (let fullContent' = fullContent @ delta_of c
      in (set_textContent (contentDiv t) fullContent' s)\<lparr>task := Streaming t fullContent'\<rparr>)"

text \<open>
  The \<open>catch\<close> block of \<open>sendMessage\<close>. \<open>Plain\<close> shows the error with \<open>addMessage\<close>,
  the two others with \<open>createMessageElement\<close>. The timer set is one that calls
  \<open>showSettings\<close>; \<open>timers\<close> keeps its delay in milliseconds.
\<close>

definition errorMessage_of :: "thrown \<Rightarrow> string" where
  "errorMessage_of e = (case e of ErrorObj m \<Rightarrow> m | NonError \<Rightarrow> ''An error occurred'')"

definition catch_block :: "variant \<Rightarrow> thrown \<Rightarrow> app \<Rightarrow> app" where
  "catch_block v e s =
     (let s1 = s\<lparr>console := console s @ [e]\<rparr>;
          errorMessage = errorMessage_of e;
          s2 = (if v = Plain then addMessage Assistant (''Error: '' @ errorMessage) s1
                else createMessageElement Assistant (''Error: '' @ errorMessage) s1)
      in if includes_str errorMessage ''401'' \<or> includes_str errorMessage ''API key''
         then s2\<lparr>timers := timers s2 @ [1000]\<rparr> else s2)"

text \<open>The \<open>finally\<close> block, after which the call of \<open>sendMessage\<close> is over.\<close>

definition finally_block :: "app \<Rightarrow> app" where
  "finally_block s =
     s\<lparr>isStreaming := False, sendBtn_disabled := False, userInput_disabled := False,
       task := Idle\<rparr>"

section \<open>Corrections\<close>

text \<open>
  The \<open>try\<close> block of \<open>getCorrections\<close> once the request has settled: \<open>Inl\<close> is what
  it throws. \<open>Notes\<close> returns \<open>content || null\<close>; \<open>Structured\<close> returns \<open>null\<close>
  for no content and otherwise \<open>JSON.parse(content)\<close>, cast to \<open>CorrectionResponse\<close>
  without a check.
\<close>

definition getCorrections_try :: "variant \<Rightarrow> host \<Rightarrow> completion settled \<Rightarrow> thrown + jsval" where
  "getCorrections_try v h r =
     (case r of
        Rejected e \<Rightarrow> Inl e
      | Fulfilled response \<Rightarrow>
          (case content_of response of
             None \<Rightarrow> Inr JNull
           | Some c \<Rightarrow>
               if c = [] then Inr JNull
               else if v = Structured then
                 (case JSON_parse h c of
                    None \<Rightarrow> Inl (raise h (SyntaxError c))
                  | Some x \<Rightarrow> Inr x)
               else Inr (JStr c)))"

text \<open>
  The rest of \<open>getCorrections\<close>: its \<open>catch\<close> block logs what was thrown and returns
  \<open>null\<close>. The first component is the value that the promise is resolved with.
\<close>

definition getCorrections_resume ::
    "variant \<Rightarrow> host \<Rightarrow> completion settled \<Rightarrow> app \<Rightarrow> jsval \<times> app" where
  "getCorrections_resume v h r s =
     (case getCorrections_try v h r of
        Inl e \<Rightarrow> (JNull, s\<lparr>console := console s @ [e]\<rparr>)
      | Inr x \<Rightarrow> (x, s))"

text \<open>
  The separator of the two lines of a correction, as the bytes that the source file holds
  between the line break and the space.
\<close>

definition arrow :: string where
  "arrow = [CHR 0xC3, CHR 0xA2, CHR 0xE2, CHR 0x80, CHR 0xA0, CHR 0xE2, CHR 0x80, CHR 0x99]"

text \<open>The callback of \<open>map\<close> in \<open>addCorrectionsToMessage\<close> of \<open>Structured\<close>.\<close>

definition format_correction :: "jsval \<Rightarrow> engine_error + string" where
  "format_correction c =
     (case get_prop (Some c) ''type'' of
        Inl e \<Rightarrow> Inl e
      | Inr ty \<Rightarrow>
          let prefix = (if ty = Some (JStr ''error'') then ''Error'' else ''Style'') in
          (case get_prop (Some c) ''suggestion'' of
             Inl e \<Rightarrow> Inl e
           | Inr sg \<Rightarrow>
               (case ToString_opt sg of
                  Inl e \<Rightarrow> Inl e
                | Inr sgs \<Rightarrow>
                    (case get_prop (Some c) ''explanation'' of
                       Inl e \<Rightarrow> Inl e
                     | Inr ex \<Rightarrow>
                         (case ToString_opt ex of
                            Inl e \<Rightarrow> Inl e
                          | Inr exs \<Rightarrow>
                              Inr (prefix @ '': '' @ sgs @ ''\<newline>'' @ arrow @ '' '' @ exs))))))"

fun format_corrections :: "jsval list \<Rightarrow> engine_error + string list" where
  "format_corrections [] = Inr []"
| "format_corrections (c # cs) =
     (case format_correction c of
        Inl e \<Rightarrow> Inl e
      | Inr t \<Rightarrow> (case format_corrections cs of Inl e \<Rightarrow> Inl e | Inr ts \<Rightarrow> Inr (t # ts)))"

text \<open>
  \<open>addCorrectionsToMessage\<close> of \<open>Structured\<close>, up to the text of the panel: \<open>Inr None\<close>
  is the early return, \<open>Inl\<close> a TypeError on data that does not have the shape of a
  \<open>CorrectionResponse\<close>.
\<close>

definition correctionsText :: "jsval \<Rightarrow> engine_error + string option" where
  "correctionsText correctionData =
     (case get_prop (Some correctionData) ''hasCorrections'' of
        Inl e \<Rightarrow> Inl e
      | Inr hc \<Rightarrow>
          if \<not> truthy_opt hc then Inr None
          else
            (case get_prop (Some correctionData) ''corrections'' of
               Inl e \<Rightarrow> Inl e
             | Inr cs \<Rightarrow>
                 (case length_is_zero cs of
                    Inl e \<Rightarrow> Inl e
                  | Inr z \<Rightarrow>
                      if z then Inr None
                      else
                        (case cs of
                           Some (JArr xs) \<Rightarrow>
                             (case format_corrections xs of
                                Inl e \<Rightarrow> Inl e
                              | Inr ts \<Rightarrow> Inr (Some (join ''\<newline>\<newline>'' ts)))
                         | _ \<Rightarrow> Inl (NotAFunction ''map'')))))"

text \<open>Appending the badge and the panel to the element of the user's message.\<close>

definition append_corrections :: "nat \<Rightarrow> string \<Rightarrow> app \<Rightarrow> app" where
  "append_corrections i text s =
     (if i < length (messagesContainer s) then
        s\<lparr>messagesContainer :=
            (messagesContainer s)[i := (messagesContainer s ! i)
               \<lparr>corrections := corrections (messagesContainer s ! i) @ [text]\<rparr>]\<rparr>
      else s)"

text \<open>
  \<open>addCorrectionsToMessage\<close>: in \<open>Notes\<close> the corrections are a string and are always
  shown; \<open>getCorrections\<close> of \<open>Notes\<close> resolves with a string or \<open>null\<close> only.
\<close>

definition addCorrectionsToMessage ::
    "variant \<Rightarrow> nat \<Rightarrow> jsval \<Rightarrow> app \<Rightarrow> engine_error + app" where
  "addCorrectionsToMessage v messageElement x s =
     (if v = Structured then
        (case correctionsText x of
           Inl e \<Rightarrow> Inl e
         | Inr None \<Rightarrow> Inr s
         | Inr (Some text) \<Rightarrow> Inr (append_corrections messageElement text s))
      else
        (case x of
           JStr text \<Rightarrow> Inr (append_corrections messageElement text s)
         | _ \<Rightarrow> Inr s))"

text \<open>
  \<open>sendMessage\<close> from the value of \<open>await correctionsPromise\<close> on: the corrections are
  added if the value is truthy; a TypeError goes to the \<open>catch\<close> block.
\<close>

definition after_corrections :: "variant \<Rightarrow> host \<Rightarrow> turn \<Rightarrow> jsval \<Rightarrow> app \<Rightarrow> app" where
  "after_corrections v h t x s =
     (if truthy x then
        (case addCorrectionsToMessage v (userMessageElement t) x s of
           Inl e \<Rightarrow> finally_block (catch_block v (raise h e) s)
         | Inr s' \<Rightarrow> finally_block s')
      else finally_block s)"

text \<open>
  \<open>sendMessage\<close> once the stream has ended: the assistant's message is pushed; \<open>Plain\<close>
  is then done, the two others await the promise of the corrections.
\<close>

definition promise_at :: "promise list \<Rightarrow> nat \<Rightarrow> promise" where
  "promise_at ps i = (if i < length ps then ps ! i else Pending)"

definition on_done :: "variant \<Rightarrow> host \<Rightarrow> turn \<Rightarrow> string \<Rightarrow> app \<Rightarrow> app" where
  "on_done v h t fullContent s =
     (let s1 = s\<lparr>messages := messages s @ [\<lparr>role = Assistant, content = fullContent\<rparr>]\<rparr>
      in case correctionsPromise t of
           None \<Rightarrow> finally_block s1
         | Some i \<Rightarrow>
             (case promise_at (promises s1) i of
                Pending \<Rightarrow> s1\<lparr>task := AwaitCorrections t\<rparr>
              | Resolved x \<Rightarrow> after_corrections v h t x s1))"

text \<open>
  The correction request of promise \<open>i\<close> settles: \<open>getCorrections\<close> runs to its end and
  its promise settles; a call of \<open>sendMessage\<close> that awaits this promise goes on.
\<close>

definition on_corrections :: "variant \<Rightarrow> host \<Rightarrow> nat \<Rightarrow> completion settled \<Rightarrow> app \<Rightarrow> app" where
  "on_corrections v h i r s =
     (if i < length (promises s) \<and> promises s ! i = Pending then
        (case getCorrections_resume v h r s of
           (x, s1) \<Rightarrow>
             (let s2 = s1\<lparr>promises := (promises s1)[i := Resolved x]\<rparr>
              in case task s2 of
                   AwaitCorrections t \<Rightarrow>
                     if correctionsPromise t = Some i
                     then after_corrections v h t x s2 else s2
                 | _ \<Rightarrow> s2))
      else s)"

section \<open>Events\<close>

text \<open>
  The application runs on one thread: between two \<open>await\<close>s a method runs to its end.
  An event is what the browser delivers: an action of the user (the listeners that
  \<open>setupEventListeners\<close> installs), a timer, or the settling of something awaited.
  \<^item> \<open>Input text\<close>: the text area's value becomes \<open>text\<close> (a script can set it
    also while the text area is disabled);
  \<^item> \<open>Send\<close>: a click on the send button, or Enter: \<open>sendMessage()\<close>;
  \<^item> \<open>OpenSettings\<close>, \<open>CloseSettings\<close>: the settings button; the close button, a
    click on the backdrop, Escape;
  \<^item> \<open>SaveKey text\<close>: the key field holds \<open>text\<close> and the save button is clicked;
  \<^item> \<open>Timeout\<close>: the oldest timer fires;
  \<^item> \<open>StreamOpened\<close>, \<open>StreamRefused e\<close>: the streaming request resolves with a stream,
    or is rejected;
  \<^item> \<open>StreamChunk c\<close>, \<open>StreamDone\<close>, \<open>StreamBroke e\<close>: the stream yields a chunk,
    ends, or throws;
  \<^item> \<open>CorrectionsSettled i r\<close>: the correction request of promise \<open>i\<close> settles.
  An event that nothing waits for changes nothing. A promise that is already resolved
  when it is awaited is taken up in the same step: no event can come in between.
\<close>

datatype event =
    Input string
  | Send
  | OpenSettings
  | CloseSettings
  | SaveKey string
  | Timeout
  | StreamOpened
  | StreamRefused thrown
  | StreamChunk chunk
  | StreamDone
  | StreamBroke thrown
  | CorrectionsSettled nat "completion settled"

fun step :: "variant \<Rightarrow> host \<Rightarrow> event \<Rightarrow> app \<Rightarrow> app" where
  "step v h (Input text) s = s\<lparr>userInput := text\<rparr>"
| "step v h Send s = sendMessage v s"
| "step v h OpenSettings s = showSettings s"
| "step v h CloseSettings s = hideSettings s"
| "step v h (SaveKey text) s = saveApiKey (s\<lparr>apiKeyInput := text\<rparr>)"
| "step v h Timeout s =
     (case timers s of [] \<Rightarrow> s | d # ds \<Rightarrow> showSettings (s\<lparr>timers := ds\<rparr>))"
| "step v h StreamOpened s =
     (case task s of AwaitStream t \<Rightarrow> s\<lparr>task := Streaming t []\<rparr> | _ \<Rightarrow> s)"
| "step v h (StreamRefused e) s =
     (case task s of AwaitStream t \<Rightarrow> finally_block (catch_block v e s) | _ \<Rightarrow> s)"
| "step v h (StreamChunk c) s =
     (case task s of Streaming t fullContent \<Rightarrow> on_chunk t fullContent c s | _ \<Rightarrow> s)"
| "step v h StreamDone s =
     (case task s of Streaming t fullContent \<Rightarrow> on_done v h t fullContent s | _ \<Rightarrow> s)"
| "step v h (StreamBroke e) s =
     (case task s of Streaming t fullContent \<Rightarrow> finally_block (catch_block v e s) | _ \<Rightarrow> s)"
| "step v h (CorrectionsSettled i r) s = on_corrections v h i r s"

fun run :: "variant \<Rightarrow> host \<Rightarrow> event list \<Rightarrow> app \<Rightarrow> app" where
  "run v h [] s = s"
| "run v h (e # es) s = run v h es (step v h e s)"

section \<open>Notions used in the statements\<close>

subsection \<open>Traces\<close>

text \<open>
  The events of the reply path, and the reply path of a trace: what is left of it when
  every other event is dropped. A statement that fixes the reply path of a trace leaves
  everything else free: what the user does, the timers, when the correction requests
  settle.
\<close>

fun is_stream_event :: "event \<Rightarrow> bool" where
  "is_stream_event StreamOpened = True"
| "is_stream_event (StreamRefused e) = True"
| "is_stream_event (StreamChunk c) = True"
| "is_stream_event StreamDone = True"
| "is_stream_event (StreamBroke e) = True"
| "is_stream_event e = False"

definition stream_events :: "event list \<Rightarrow> event list" where
  "stream_events es = filter is_stream_event es"

text \<open>
  The three ways a reply can go, as the events of its path: the stream is opened, yields
  chunks and ends; the request is rejected; the stream is opened, yields chunks and
  throws. The last two are the failures.
\<close>

datatype reply = Completed "chunk list" | Refused thrown | Broke "chunk list" thrown

fun reply_events :: "reply \<Rightarrow> event list" where
  "reply_events (Completed cs) = StreamOpened # map StreamChunk cs @ [StreamDone]"
| "reply_events (Refused e) = [StreamRefused e]"
| "reply_events (Broke cs e) = StreamOpened # map StreamChunk cs @ [StreamBroke e]"

fun failed :: "reply \<Rightarrow> bool" where
  "failed (Completed cs) = False"
| "failed (Refused e) = True"
| "failed (Broke cs e) = True"

text \<open>
  \<open>idle\<close>: a client is set and no call of \<open>sendMessage\<close> is suspended, so that a
  message that is not blank is accepted. \<open>busy\<close>: a turn is in flight.
\<close>

definition idle :: "app \<Rightarrow> bool" where
  "idle s = (task s = Idle \<and> \<not> isStreaming s \<and> openai s \<noteq> None)"

definition busy :: "app \<Rightarrow> bool" where
  "busy s = (isStreaming s \<and> openai s \<noteq> None)"

text \<open>
  The value that \<open>getCorrections\<close> resolves its promise with, given how its request
  settled; whether a trace settles promise \<open>i\<close>; and the value that the first such event
  of a trace resolves it with.
\<close>

definition getCorrections_value :: "variant \<Rightarrow> host \<Rightarrow> completion settled \<Rightarrow> jsval" where
  "getCorrections_value v h r = (case getCorrections_try v h r of Inl e \<Rightarrow> JNull | Inr x \<Rightarrow> x)"

definition settles :: "nat \<Rightarrow> event list \<Rightarrow> bool" where
  "settles i es = list_ex (\<lambda>e. case e of CorrectionsSettled j r \<Rightarrow> j = i | _ \<Rightarrow> False) es"

fun resolved_with :: "variant \<Rightarrow> host \<Rightarrow> nat \<Rightarrow> event list \<Rightarrow> jsval option" where
  "resolved_with v h i [] = None"
| "resolved_with v h i (CorrectionsSettled j r # es) =
     (if j = i then Some (getCorrections_value v h r) else resolved_with v h i es)"
| "resolved_with v h i (e # es) = resolved_with v h i es"

text \<open>
  A turn that is accepted and whose reply completes, as a triple: what the user typed, the
  chunks of the reply, and the events that follow \<open>Send\<close>. The user sends nothing else
  meanwhile, the reply path of the events is the completed reply with these chunks, and the
  events settle the promise of the turn's corrections (its number is \<open>n\<close>; \<open>Plain\<close>
  has none), as they must before the next turn can be accepted. In a sequence of such turns
  the promises are numbered from \<open>n\<close> on.
\<close>

type_synonym turn_trace = "string \<times> chunk list \<times> event list"

fun good_turn :: "variant \<Rightarrow> nat \<Rightarrow> turn_trace \<Rightarrow> bool" where
  "good_turn v n (text, cs, es) =
     (trim text \<noteq> [] \<and> Send \<notin> set es \<and> stream_events es = reply_events (Completed cs)
      \<and> (v = Plain \<or> settles n es))"

fun good_turns :: "variant \<Rightarrow> nat \<Rightarrow> turn_trace list \<Rightarrow> bool" where
  "good_turns v n [] = True"
| "good_turns v n (t # ts) = (good_turn v n t \<and> good_turns v (Suc n) ts)"

fun turn_events :: "turn_trace \<Rightarrow> event list" where
  "turn_events (text, cs, es) = Input text # Send # es"

fun turn_messages :: "turn_trace \<Rightarrow> message list" where
  "turn_messages (text, cs, es) =
     [\<lparr>role = User, content = trim text\<rparr>,
      \<lparr>role = Assistant, content = concat (map delta_of cs)\<rparr>]"

subsection \<open>What a turn leaves behind\<close>

text \<open>
  The local variables of the call of \<open>sendMessage\<close> that state \<open>s\<close> accepts, and the
  two elements it appends to the transcript: the user's message and the empty placeholder
  of the assistant.
\<close>

definition first_turn :: "variant \<Rightarrow> app \<Rightarrow> turn" where
  "first_turn v s =
     \<lparr>correctionsPromise = (if v = Plain then None else Some (length (promises s))),
      userMessageElement = length (messagesContainer s),
      contentDiv = Suc (length (messagesContainer s))\<rparr>"

definition new_elements :: "string \<Rightarrow> element list" where
  "new_elements c =
     [\<lparr>el_role = User, textContent = c, corrections = []\<rparr>,
      \<lparr>el_role = Assistant, textContent = [], corrections = []\<rparr>]"

text \<open>
  A transcript with the text of element \<open>i\<close> replaced, and with a panel of corrections
  appended to element \<open>i\<close>; the element that the \<open>catch\<close> block of \<open>sendMessage\<close>
  renders.
\<close>

definition with_text :: "nat \<Rightarrow> string \<Rightarrow> element list \<Rightarrow> element list" where
  "with_text i text els = els[i := (els ! i)\<lparr>textContent := text\<rparr>]"

definition with_corrections :: "nat \<Rightarrow> string \<Rightarrow> element list \<Rightarrow> element list" where
  "with_corrections i text els =
     (if i < length els then els[i := (els ! i)\<lparr>corrections := corrections (els ! i) @ [text]\<rparr>]
      else els)"

definition error_element :: "thrown \<Rightarrow> element" where
  "error_element e =
     \<lparr>el_role = Assistant, textContent = ''Error: '' @ errorMessage_of e, corrections = []\<rparr>"

text \<open>
  What \<open>addCorrectionsToMessage\<close> makes of a value: the text of a panel, nothing, or
  a TypeError. \<open>shown\<close> is the transcript after the code that follows
  \<open>await correctionsPromise\<close> has run with value \<open>x\<close> on the user's element \<open>u\<close>;
  \<open>attached\<close> is what it has appended to that element.
\<close>

definition corrections_for :: "variant \<Rightarrow> jsval \<Rightarrow> engine_error + string option" where
  "corrections_for v x =
     (if v = Structured then correctionsText x
      else (case x of JStr text \<Rightarrow> Inr (Some text) | _ \<Rightarrow> Inr None))"

definition shown :: "variant \<Rightarrow> host \<Rightarrow> nat \<Rightarrow> jsval \<Rightarrow> element list \<Rightarrow> element list" where
  "shown v h u x els =
     (if truthy x then
        (case corrections_for v x of
           Inl e \<Rightarrow> els @ [error_element (raise h e)]
         | Inr None \<Rightarrow> els
         | Inr (Some text) \<Rightarrow> with_corrections u text els)
      else els)"

definition attached :: "variant \<Rightarrow> jsval \<Rightarrow> string list" where
  "attached v x =
     (if truthy x then (case corrections_for v x of Inr (Some t) \<Rightarrow> [t] | _ \<Rightarrow> []) else [])"

text \<open>
  The state in which a turn with a completed reply ends, given the transcript \<open>els\<close>
  and the history \<open>ms\<close> at the end of the stream and the value \<open>fv\<close> of the
  corrections, if they have settled: with no value yet the call is suspended at
  \<open>await correctionsPromise\<close> and \<open>isStreaming\<close> is still set. \<open>final_value\<close> is that
  value for the promises \<open>ps\<close> and the events still to come. The state in which a turn
  with a failed reply ends.
\<close>

definition final_value :: "variant \<Rightarrow> host \<Rightarrow> turn \<Rightarrow> promise list \<Rightarrow> event list \<Rightarrow> jsval option" where
  "final_value v h t ps es =
     (case correctionsPromise t of
        None \<Rightarrow> Some JNull
      | Some i \<Rightarrow> (case ps ! i of Resolved x \<Rightarrow> Some x | Pending \<Rightarrow> resolved_with v h i es))"

definition promise_ok :: "variant \<Rightarrow> turn \<Rightarrow> promise list \<Rightarrow> bool" where
  "promise_ok v t ps =
     (case correctionsPromise t of None \<Rightarrow> True | Some i \<Rightarrow> i < length ps \<and> v \<noteq> Plain)"

definition turn_done ::
    "variant \<Rightarrow> host \<Rightarrow> turn \<Rightarrow> element list \<Rightarrow> message list \<Rightarrow> jsval option \<Rightarrow> app \<Rightarrow> bool" where
  "turn_done v h t els ms fv s =
     (messages s = ms \<and>
      (case fv of
         None \<Rightarrow> task s = AwaitCorrections t \<and> isStreaming s \<and> messagesContainer s = els
       | Some x \<Rightarrow> task s = Idle \<and> \<not> isStreaming s
            \<and> messagesContainer s = shown v h (userMessageElement t) x els))"

definition turn_failed ::
    "variant \<Rightarrow> element list \<Rightarrow> message list \<Rightarrow> thrown \<Rightarrow> app \<Rightarrow> bool" where
  "turn_failed v els ms e s =
     (task s = Idle \<and> \<not> isStreaming s \<and> messagesContainer s = els @ [error_element e]
      \<and> messages s =
          ms @ (if v = Plain
                then [\<lparr>role = Assistant, content = ''Error: '' @ errorMessage_of e\<rparr>] else []))"

text \<open>
  \<open>abandoned u i\<close>: nothing is attached to element \<open>u\<close>, and no suspended call of
  \<open>sendMessage\<close> holds element \<open>u\<close> as its user's element or promise \<open>i\<close> as the
  promise of its corrections.
\<close>

fun turn_of :: "task \<Rightarrow> turn option" where
  "turn_of Idle = None"
| "turn_of (AwaitStream t) = Some t"
| "turn_of (Streaming t f) = Some t"
| "turn_of (AwaitCorrections t) = Some t"

definition abandoned :: "nat \<Rightarrow> nat \<Rightarrow> app \<Rightarrow> bool" where
  "abandoned u i s =
     (u < length (messagesContainer s) \<and> corrections (messagesContainer s ! u) = []
      \<and> i < length (promises s)
      \<and> (case turn_of (task s) of
            None \<Rightarrow> True
          | Some t \<Rightarrow> userMessageElement t \<noteq> u \<and> correctionsPromise t \<noteq> Some i))"

text \<open>
  A correction request that yields nothing: it is rejected, or its response has no
  content or empty content, or, in \<open>Structured\<close>, \<open>JSON.parse\<close> throws on the content.
\<close>

definition unusable :: "variant \<Rightarrow> host \<Rightarrow> completion settled \<Rightarrow> bool" where
  "unusable v h r =
     (case r of
        Rejected e \<Rightarrow> True
      | Fulfilled c \<Rightarrow>
          (case content_of c of
             None \<Rightarrow> True
           | Some t \<Rightarrow> t = [] \<or> (v = Structured \<and> JSON_parse h t = None)))"

subsection \<open>The schema of the corrections\<close>

text \<open>
  The \<open>json_schema\<close> that \<open>getCorrections\<close> of \<open>Structured\<close> sends with its request:
  an object with exactly the properties \<open>hasCorrections\<close>, a boolean, and
  \<open>corrections\<close>, an array of objects with exactly the properties \<open>type\<close>
  (\<open>error\<close> or \<open>style\<close>), \<open>original\<close>, \<open>suggestion\<close> and \<open>explanation\<close>, all
  strings. The code never checks a response against it.
\<close>

fun is_JStr :: "jsval option \<Rightarrow> bool" where
  "is_JStr (Some (JStr s)) = True"
| "is_JStr x = False"

fun matches_item :: "jsval \<Rightarrow> bool" where
  "matches_item (JObj kvs) =
     (distinct (map fst kvs)
      \<and> set (map fst kvs) = {''type'', ''original'', ''suggestion'', ''explanation''}
      \<and> (map_of kvs ''type'' = Some (JStr ''error'') \<or> map_of kvs ''type'' = Some (JStr ''style''))
      \<and> is_JStr (map_of kvs ''original'') \<and> is_JStr (map_of kvs ''suggestion'')
      \<and> is_JStr (map_of kvs ''explanation''))"
| "matches_item x = False"

fun matches_schema :: "jsval \<Rightarrow> bool" where
  "matches_schema (JObj kvs) =
     (distinct (map fst kvs)
      \<and> set (map fst kvs) = {''hasCorrections'', ''corrections''}
      \<and> (case map_of kvs ''hasCorrections'' of Some (JBool b) \<Rightarrow> True | _ \<Rightarrow> False)
      \<and> (case map_of kvs ''corrections'' of Some (JArr xs) \<Rightarrow> list_all matches_item xs | _ \<Rightarrow> False))"
| "matches_schema x = False"

subsection \<open>Sample data\<close>

text \<open>
  For the examples: a chunk and a response that carry a text; a host whose \<open>JSON.parse\<close>
  knows four JSON texts, on which it returns what the real one returns, and takes every
  other text for no JSON (the examples use \<open>Perfect!\<close>, which is none); the messages of
  its errors follow those of V8.
\<close>

definition text_chunk :: "string \<Rightarrow> chunk" where
  "text_chunk t = Chunk [ChunkChoice (Some (Delta (Some t)))]"

definition text_reply :: "string \<Rightarrow> completion settled" where
  "text_reply t = Fulfilled (Completion [ReplyChoice (Some (ReplyMessage (Some t)))])"

definition sample_correction :: jsval where
  "sample_correction =
     JObj [(''hasCorrections'', JBool True),
           (''corrections'',
            JArr [JObj [(''type'', JStr ''error''), (''original'', JStr ''yo es''),
                        (''suggestion'', JStr ''yo soy''), (''explanation'', JStr ''ser'')]])]"

definition sample_parse :: "string \<Rightarrow> jsval option" where
  \<open>sample_parse t =
     (if t = ''{}'' then Some (JObj [])
      else if t = ''{"hasCorrections":true}'' then Some (JObj [(''hasCorrections'', JBool True)])
      else if t = ''{"hasCorrections":false,"corrections":[]}''
        then Some (JObj [(''hasCorrections'', JBool False), (''corrections'', JArr [])])
      else if t = ''{"hasCorrections":true,"corrections":[{"type":"error","original":"yo es","suggestion":"yo soy","explanation":"ser"}]}''
        then Some sample_correction
      else None)\<close>

definition sample_message :: "engine_error \<Rightarrow> string" where
  "sample_message e =
     (case e of
        SyntaxError t \<Rightarrow> ''Unexpected token in JSON''
      | ReadOfNullish n \<Rightarrow> ''Cannot read properties of undefined (reading '' @ [CHR 0x27] @ n @ [CHR 0x27] @ '')''
      | NotAFunction n \<Rightarrow> n @ '' is not a function''
      | NotPrimitive \<Rightarrow> ''Cannot convert object to primitive value'')"

definition sample_host :: host where
  "sample_host = \<lparr>JSON_parse = sample_parse, engine_message = sample_message\<rparr>"

section \<open>Lemmas\<close>

subsection \<open>Fields after each method\<close>

lemmas small_defs = showSettings_def hideSettings_def createMessageElement_def addMessage_def
  saveApiKey_def catch_block_def finally_block_def set_textContent_def append_corrections_def
  getCorrections_def on_chunk_def

lemma run_append: "run v h (es @ fs) s = run v h fs (run v h es s)"
  by (induction es arbitrary: s) simp_all

lemma resume_fields [simp]:
  "messages (snd (getCorrections_resume v h r s)) = messages s"
  "messagesContainer (snd (getCorrections_resume v h r s)) = messagesContainer s"
  "task (snd (getCorrections_resume v h r s)) = task s"
  "isStreaming (snd (getCorrections_resume v h r s)) = isStreaming s"
  "promises (snd (getCorrections_resume v h r s)) = promises s"
  "requests (snd (getCorrections_resume v h r s)) = requests s"
  "timers (snd (getCorrections_resume v h r s)) = timers s"
  "openai (snd (getCorrections_resume v h r s)) = openai s"
  "alerts (snd (getCorrections_resume v h r s)) = alerts s"
  "settingsModal_hidden (snd (getCorrections_resume v h r s)) = settingsModal_hidden s"
  by (simp_all add: getCorrections_resume_def split: sum.splits)

text \<open>When no call is suspended and the user sends nothing, nothing of the conversation moves.\<close>

lemma idle_run:
  assumes "task s = Idle" "\<not> isStreaming s" "Send \<notin> set es"
  shows "task (run v h es s) = Idle \<and> \<not> isStreaming (run v h es s)
       \<and> messages (run v h es s) = messages s
       \<and> messagesContainer (run v h es s) = messagesContainer s
       \<and> requests (run v h es s) = requests s"
  using assms
proof (induction es arbitrary: s)
  case Nil then show ?case by simp
next
  case (Cons e es)
  have st: "task (step v h e s) = Idle \<and> \<not> isStreaming (step v h e s)
       \<and> messages (step v h e s) = messages s
       \<and> messagesContainer (step v h e s) = messagesContainer s
       \<and> requests (step v h e s) = requests s"
    using Cons.prems
    by (cases e) (simp_all add: small_defs on_corrections_def Let_def split_beta split: list.splits)
  with Cons.IH[of "step v h e s"] Cons.prems show ?case by simp
qed

lemma fst_resume [simp]: "fst (getCorrections_resume v h r s) = getCorrections_value v h r"
  by (simp add: getCorrections_resume_def getCorrections_value_def split: sum.splits)

subsection \<open>The phases of a turn\<close>

text \<open>While the request or the stream is awaited, nothing but the stream moves the turn.\<close>

lemma side_step:
  assumes "busy s" "\<not> is_stream_event e" "task s = AwaitStream t \<or> task s = Streaming t f"
  shows "messages (step v h e s) = messages s"
    and "messagesContainer (step v h e s) = messagesContainer s"
    and "task (step v h e s) = task s"
    and "requests (step v h e s) = requests s"
    and "length (promises (step v h e s)) = length (promises s)"
    and "busy (step v h e s)"
  using assms
  by (cases e; auto simp add: busy_def small_defs sendMessage_def on_corrections_def Let_def split_beta
        split: list.splits)+

lemma await_run:
  assumes "task s = AwaitStream t" "busy s" "stream_events es = []"
  shows "task (run v h es s) = AwaitStream t \<and> busy (run v h es s)
       \<and> messages (run v h es s) = messages s
       \<and> messagesContainer (run v h es s) = messagesContainer s
       \<and> requests (run v h es s) = requests s
       \<and> length (promises (run v h es s)) = length (promises s)"
  using assms
proof (induction es arbitrary: s)
  case Nil then show ?case by simp
next
  case (Cons e es)
  from Cons.prems have ne: "\<not> is_stream_event e" and rest: "stream_events es = []"
    by (auto simp: stream_events_def split: if_splits)
  note st = side_step[OF Cons.prems(2) ne, of t undefined v h, OF disjI1, OF Cons.prems(1)]
  from Cons.IH[of "step v h e s"] st rest Cons.prems(1) show ?case by simp
qed

lemma with_text_id: "with_text i (textContent (els ! i)) els = els"
  by (simp add: with_text_def list_update_same_conv)

lemma with_text_same [simp]: "textContent (els ! i) = f \<Longrightarrow> with_text i f els = els"
  using with_text_id[of i els] by simp

lemma with_text_twice [simp]: "with_text i g (with_text i f els) = with_text i g els"
  by (cases "i < length els") (simp_all add: with_text_def list_update_beyond)

lemma length_with_text [simp]: "length (with_text i f els) = length els"
  by (simp add: with_text_def)

lemma stream_run:
  assumes "task s = Streaming t f" "busy s" "contentDiv t < length (messagesContainer s)"
    "textContent (messagesContainer s ! contentDiv t) = f"
    "stream_events es = map StreamChunk cs"
  shows "task (run v h es s) = Streaming t (f @ concat (map delta_of cs)) \<and> busy (run v h es s)
       \<and> messages (run v h es s) = messages s
       \<and> messagesContainer (run v h es s)
           = with_text (contentDiv t) (f @ concat (map delta_of cs)) (messagesContainer s)
       \<and> requests (run v h es s) = requests s
       \<and> length (promises (run v h es s)) = length (promises s)"
  using assms
proof (induction es arbitrary: s f cs)
  case Nil then show ?case by (simp add: stream_events_def)
next
  case (Cons e es)
  show ?case
  proof (cases "is_stream_event e")
    case False
    with Cons.prems have rest: "stream_events es = map StreamChunk cs"
      by (simp add: stream_events_def)
    note st = side_step[OF Cons.prems(2) False, of t f v h, OF disjI2, OF Cons.prems(1)]
    from Cons.IH[of "step v h e s" f cs] st rest Cons.prems show ?thesis by simp
  next
    case True
    with Cons.prems obtain c cs' where e: "e = StreamChunk c" and cs: "cs = c # cs'"
      and rest: "stream_events es = map StreamChunk cs'"
      by (auto simp: stream_events_def)
    let ?s1 = "step v h e s"
    have s1: "task ?s1 = Streaming t (f @ delta_of c)" "busy ?s1"
      "messages ?s1 = messages s" "requests ?s1 = requests s" "promises ?s1 = promises s"
      "messagesContainer ?s1 = with_text (contentDiv t) (f @ delta_of c) (messagesContainer s)"
      using Cons.prems(1-3) by (simp_all add: e on_chunk_def set_textContent_def busy_def with_text_def Let_def)
    have tc: "textContent (messagesContainer ?s1 ! contentDiv t) = f @ delta_of c"
      using Cons.prems(3) by (simp add: s1 with_text_def)
    from Cons.IH[OF s1(1) s1(2) _ tc rest] Cons.prems(3) s1 show ?thesis
      by (simp add: cs)
  qed
qed

lemma catch_fields [simp]:
  "task (catch_block v e s) = task s"
  "isStreaming (catch_block v e s) = isStreaming s"
  "openai (catch_block v e s) = openai s"
  "promises (catch_block v e s) = promises s"
  "requests (catch_block v e s) = requests s"
  "messagesContainer (catch_block v e s) = messagesContainer s @ [error_element e]"
  "messages (catch_block v e s) =
     messages s @ (if v = Plain then [\<lparr>role = Assistant, content = ''Error: '' @ errorMessage_of e\<rparr>] else [])"
  by (simp_all add: catch_block_def Let_def addMessage_def createMessageElement_def error_element_def)

lemma finally_fields [simp]:
  "task (finally_block s) = Idle"
  "isStreaming (finally_block s) = False"
  "openai (finally_block s) = openai s"
  "promises (finally_block s) = promises s"
  "requests (finally_block s) = requests s"
  "messagesContainer (finally_block s) = messagesContainer s"
  "messages (finally_block s) = messages s"
  "timers (finally_block s) = timers s"
  "settingsModal_hidden (finally_block s) = settingsModal_hidden s"
  "alerts (finally_block s) = alerts s"
  by (simp_all add: finally_block_def)

lemma after_corrections_fields:
  "task (after_corrections v h t x s) = Idle"
  "isStreaming (after_corrections v h t x s) = False"
  "openai (after_corrections v h t x s) = openai s"
  "promises (after_corrections v h t x s) = promises s"
  "requests (after_corrections v h t x s) = requests s"
  "messagesContainer (after_corrections v h t x s)
     = shown v h (userMessageElement t) x (messagesContainer s)"
  "v \<noteq> Plain \<Longrightarrow> messages (after_corrections v h t x s) = messages s"
  by (auto simp add: after_corrections_def addCorrectionsToMessage_def shown_def
      corrections_for_def append_corrections_def with_corrections_def
      split: sum.splits option.splits jsval.splits)

text \<open>
  Suspended at \<open>await correctionsPromise\<close>, the call goes on when that promise settles,
  and at nothing else.
\<close>

lemma corr_step_other:
  assumes "task s = AwaitCorrections t" "correctionsPromise t = Some i" "busy s"
    "\<And>r. e \<noteq> CorrectionsSettled i r"
  shows "task (step v h e s) = task s"
    and "messages (step v h e s) = messages s"
    and "messagesContainer (step v h e s) = messagesContainer s"
    and "busy (step v h e s)"
    and "length (promises (step v h e s)) = length (promises s)"
    and "promises (step v h e s) ! i = promises s ! i"
  using assms
  by (cases e; auto simp add: busy_def small_defs sendMessage_def on_corrections_def Let_def split_beta
        split: list.splits)+

lemma corr_step_this:
  assumes "task s = AwaitCorrections t" "correctionsPromise t = Some i"
    "i < length (promises s)" "promises s ! i = Pending" "v \<noteq> Plain"
  shows "task (step v h (CorrectionsSettled i r) s) = Idle"
    and "\<not> isStreaming (step v h (CorrectionsSettled i r) s)"
    and "messages (step v h (CorrectionsSettled i r) s) = messages s"
    and "messagesContainer (step v h (CorrectionsSettled i r) s)
          = shown v h (userMessageElement t) (getCorrections_value v h r) (messagesContainer s)"
  using assms
  by (simp_all add: on_corrections_def split_beta Let_def after_corrections_fields)

lemma corr_run:
  assumes "task s = AwaitCorrections t" "correctionsPromise t = Some i"
    "i < length (promises s)" "promises s ! i = Pending" "busy s" "v \<noteq> Plain"
    "Send \<notin> set es"
  shows "turn_done v h t (messagesContainer s) (messages s) (resolved_with v h i es) (run v h es s)"
  using assms
proof (induction es arbitrary: s)
  case Nil then show ?case by (simp add: turn_done_def busy_def)
next
  case (Cons e es)
  show ?case
  proof (cases "\<exists>r. e = CorrectionsSettled i r")
    case True
    then obtain r where e: "e = CorrectionsSettled i r" by blast
    note st = corr_step_this[OF Cons.prems(1-4) Cons.prems(6), of h r]
    from idle_run[OF st(1) st(2), of es v h] Cons.prems(7) st show ?thesis
      by (simp add: e turn_done_def)
  next
    case False
    then have ne: "\<And>r. e \<noteq> CorrectionsSettled i r" by blast
    note st = corr_step_other[OF Cons.prems(1,2,5) ne, of v h]
    have se: "resolved_with v h i (e # es) = resolved_with v h i es"
      using False by (cases e) simp_all
    have "turn_done v h t (messagesContainer (step v h e s)) (messages (step v h e s))
            (resolved_with v h i es) (run v h es (step v h e s))"
      using Cons.prems st by (intro Cons.IH) simp_all
    then show ?thesis by (simp add: st se)
  qed
qed

lemma side_promise:
  assumes "busy s" "\<not> is_stream_event e" "task s = AwaitStream t \<or> task s = Streaming t f"
    "promise_ok v t (promises s)"
  shows "final_value v h t (promises (step v h e s)) es = final_value v h t (promises s) (e # es)"
    and "promise_ok v t (promises (step v h e s))"
  using assms
  by (cases e; auto simp add: busy_def small_defs sendMessage_def on_corrections_def Let_def
        split_beta final_value_def nth_list_update promise_ok_def
        split: list.splits option.splits promise.splits)+

lemma shown_null [simp]: "shown v h u JNull els = els"
  by (simp add: shown_def)

text \<open>
  From the end of the stream on: the turn ends at once if the corrections have settled,
  and when they settle otherwise.
\<close>

lemma done_step:
  assumes "task s = Streaming t f" "busy s" "Send \<notin> set es" "stream_events es = []"
    "promise_ok v t (promises s)"
  shows "turn_done v h t (messagesContainer s)
           (messages s @ [\<lparr>role = Assistant, content = f\<rparr>])
           (final_value v h t (promises s) es) (run v h es (on_done v h t f s))"
proof (cases "correctionsPromise t")
  case None
  let ?s1 = "on_done v h t f s"
  have st: "task ?s1 = Idle" "\<not> isStreaming ?s1"
    "messages ?s1 = messages s @ [\<lparr>role = Assistant, content = f\<rparr>]"
    "messagesContainer ?s1 = messagesContainer s"
    by (simp_all add: on_done_def None)
  from idle_run[OF st(1) st(2) assms(3), of v h] st show ?thesis
    by (simp add: turn_done_def final_value_def None)
next
  case (Some i)
  with assms(5) have i: "i < length (promises s)" and v: "v \<noteq> Plain" by (simp_all add: promise_ok_def)
  let ?s1 = "on_done v h t f s"
  show ?thesis
  proof (cases "promises s ! i")
    case Pending
    have st: "task ?s1 = AwaitCorrections t" "busy ?s1"
      "messages ?s1 = messages s @ [\<lparr>role = Assistant, content = f\<rparr>]"
      "messagesContainer ?s1 = messagesContainer s" "promises ?s1 = promises s"
      using assms(2) i by (simp_all add: on_done_def Some promise_at_def Pending busy_def)
    have "turn_done v h t (messagesContainer ?s1) (messages ?s1) (resolved_with v h i es) (run v h es ?s1)"
      using st i Pending v assms(3) Some by (intro corr_run) simp_all
    then show ?thesis by (simp add: st final_value_def Some Pending)
  next
    case (Resolved x)
    have st: "task ?s1 = Idle" "\<not> isStreaming ?s1"
      "messages ?s1 = messages s @ [\<lparr>role = Assistant, content = f\<rparr>]"
      "messagesContainer ?s1 = shown v h (userMessageElement t) x (messagesContainer s)"
      using i v by (simp_all add: on_done_def Some promise_at_def Resolved after_corrections_fields)
    from idle_run[OF st(1) st(2) assms(3), of v h] st show ?thesis
      by (simp add: turn_done_def final_value_def Some Resolved)
  qed
qed

lemma done_run:
  assumes "task s = Streaming t f" "busy s" "contentDiv t < length (messagesContainer s)"
    "textContent (messagesContainer s ! contentDiv t) = f"
    "Send \<notin> set es"
    "stream_events es = map StreamChunk cs @ [StreamDone]"
    "promise_ok v t (promises s)"
  shows "turn_done v h t
           (with_text (contentDiv t) (f @ concat (map delta_of cs)) (messagesContainer s))
           (messages s @ [\<lparr>role = Assistant, content = f @ concat (map delta_of cs)\<rparr>])
           (final_value v h t (promises s) es) (run v h es s)"
  using assms
proof (induction es arbitrary: s f cs)
  case Nil then show ?case by (simp add: stream_events_def)
next
  case (Cons e es)
  show ?case
  proof (cases "is_stream_event e")
    case False
    with Cons.prems have rest: "stream_events es = map StreamChunk cs @ [StreamDone]"
      by (simp add: stream_events_def)
    note st = side_step[OF Cons.prems(2) False, of t f v h, OF disjI2, OF Cons.prems(1)]
    note pr1 = side_promise(1)[where t=t and f=f and v=v and h=h and es=es, OF Cons.prems(2) False disjI2, OF Cons.prems(1) Cons.prems(7)]
    note pr2 = side_promise(2)[where t=t and f=f and v=v and h=h, OF Cons.prems(2) False disjI2, OF Cons.prems(1) Cons.prems(7)]
    have "turn_done v h t
           (with_text (contentDiv t) (f @ concat (map delta_of cs)) (messagesContainer (step v h e s)))
           (messages (step v h e s) @ [\<lparr>role = Assistant, content = f @ concat (map delta_of cs)\<rparr>])
           (final_value v h t (promises (step v h e s)) es) (run v h es (step v h e s))"
      using st pr2 rest Cons.prems by (intro Cons.IH) simp_all
    then show ?thesis by (simp add: st pr1)
  next
    case True
    show ?thesis
    proof (cases cs)
      case Nil
      with True Cons.prems have e: "e = StreamDone" and rest: "stream_events es = []"
        by (auto simp: stream_events_def split: if_splits)
      have fv: "final_value v h t (promises s) (StreamDone # es) = final_value v h t (promises s) es"
        by (simp add: final_value_def split: option.splits promise.splits)
      from done_step[OF Cons.prems(1,2) _ rest Cons.prems(7), of h] Cons.prems
      show ?thesis by (simp add: e Nil fv)
    next
      case (Cons c cs')
      with True Cons.prems have e: "e = StreamChunk c"
        and rest: "stream_events es = map StreamChunk cs' @ [StreamDone]"
        by (auto simp: stream_events_def split: if_splits)
      let ?s1 = "step v h e s"
      have s1: "task ?s1 = Streaming t (f @ delta_of c)" "busy ?s1"
        "messages ?s1 = messages s" "promises ?s1 = promises s"
        "messagesContainer ?s1 = with_text (contentDiv t) (f @ delta_of c) (messagesContainer s)"
        using Cons.prems(1-3)
        by (simp_all add: e on_chunk_def set_textContent_def busy_def with_text_def Let_def)
      have tc: "textContent (messagesContainer ?s1 ! contentDiv t) = f @ delta_of c"
        using Cons.prems(3) by (simp add: s1 with_text_def)
      have fv: "final_value v h t (promises s) (e # es) = final_value v h t (promises s) es"
        by (simp add: e final_value_def split: option.splits promise.splits)
      have "turn_done v h t
           (with_text (contentDiv t) ((f @ delta_of c) @ concat (map delta_of cs')) (messagesContainer ?s1))
           (messages ?s1 @ [\<lparr>role = Assistant, content = (f @ delta_of c) @ concat (map delta_of cs')\<rparr>])
           (final_value v h t (promises ?s1) es) (run v h es ?s1)"
        using s1 tc rest Cons.prems by (intro Cons.IH) simp_all
      then show ?thesis by (simp add: s1 Cons fv)
    qed
  qed
qed

lemma send_idle:
  assumes "\<not> isStreaming s" "openai s \<noteq> None" "trim (userInput s) \<noteq> []"
  shows "task (sendMessage v s) = AwaitStream (first_turn v s)"
    and "busy (sendMessage v s)"
    and "messages (sendMessage v s) = messages s @ [\<lparr>role = User, content = trim (userInput s)\<rparr>]"
    and "messagesContainer (sendMessage v s) = messagesContainer s @ new_elements (trim (userInput s))"
    and "promises (sendMessage v s) = promises s @ (if v = Plain then [] else [Pending])"
    and "requests (sendMessage v s) = requests s @
          (if v = Plain then
             [StreamRequest ''gpt-5-mini'' (messages s @ [\<lparr>role = User, content = trim (userInput s)\<rparr>])]
           else
             [CorrectionRequest ''gpt-4o-mini'' (trim (userInput s)),
              StreamRequest ''gpt-4o-mini'' (messages s @ [\<lparr>role = User, content = trim (userInput s)\<rparr>])])"
proof -
  from assms(2) obtain k where k: "openai s = Some k" by auto
  note defs = sendMessage_def Let_def small_defs first_turn_def new_elements_def busy_def
  show "task (sendMessage v s) = AwaitStream (first_turn v s)"
    using assms(1,3) k by (cases "v = Plain") (simp_all add: defs)
  show "busy (sendMessage v s)"
    using assms(1,3) k by (cases "v = Plain") (simp_all add: defs)
  show "messages (sendMessage v s) = messages s @ [\<lparr>role = User, content = trim (userInput s)\<rparr>]"
    using assms(1,3) k by (cases "v = Plain") (simp_all add: defs)
  show "messagesContainer (sendMessage v s) = messagesContainer s @ new_elements (trim (userInput s))"
    using assms(1,3) k by (cases "v = Plain") (simp_all add: defs)
  show "promises (sendMessage v s) = promises s @ (if v = Plain then [] else [Pending])"
    using assms(1,3) k by (cases "v = Plain") (simp_all add: defs)
  show "requests (sendMessage v s) = requests s @
          (if v = Plain then
             [StreamRequest ''gpt-5-mini'' (messages s @ [\<lparr>role = User, content = trim (userInput s)\<rparr>])]
           else
             [CorrectionRequest ''gpt-4o-mini'' (trim (userInput s)),
              StreamRequest ''gpt-4o-mini'' (messages s @ [\<lparr>role = User, content = trim (userInput s)\<rparr>])])"
    using assms(1,3) k by (cases "v = Plain") (simp_all add: defs)
qed

lemma filter_snoc_split:
  "filter P es = xs @ [y] \<Longrightarrow>
     \<exists>es1 es2. es = es1 @ y # es2 \<and> filter P es1 = xs \<and> filter P es2 = []"
proof (induction es arbitrary: xs)
  case Nil then show ?case by simp
next
  case (Cons a es)
  show ?case
  proof (cases "P a")
    case False
    with Cons.prems have "filter P es = xs @ [y]" by simp
    from Cons.IH[OF this] obtain es1 es2 where
      "es = es1 @ y # es2" "filter P es1 = xs" "filter P es2 = []" by blast
    with False have "a # es = (a # es1) @ y # es2 \<and> filter P (a # es1) = xs \<and> filter P es2 = []"
      by simp
    then show ?thesis by blast
  next
    case True
    show ?thesis
    proof (cases xs)
      case Nil
      with True Cons.prems have "a # es = [] @ y # es \<and> filter P [] = xs \<and> filter P es = []"
        by simp
      then show ?thesis by blast
    next
      case (Cons x xs')
      with True Cons.prems have a: "a = x" and "filter P es = xs' @ [y]" by simp_all
      from Cons.IH[OF this(2)] obtain es1 es2 where
        "es = es1 @ y # es2" "filter P es1 = xs'" "filter P es2 = []" by blast
      with True a Cons
      have "a # es = (a # es1) @ y # es2 \<and> filter P (a # es1) = xs \<and> filter P es2 = []"
        by simp
      then show ?thesis by blast
    qed
  qed
qed

lemma broke_run:
  assumes "task s = Streaming t f" "busy s" "contentDiv t < length (messagesContainer s)"
    "textContent (messagesContainer s ! contentDiv t) = f"
    "Send \<notin> set es"
    "stream_events es = map StreamChunk cs @ [StreamBroke e]"
  shows "turn_failed v
           (with_text (contentDiv t) (f @ concat (map delta_of cs)) (messagesContainer s))
           (messages s) e (run v h es s)"
proof -
  from filter_snoc_split[OF assms(6)[unfolded stream_events_def]]
  obtain es1 es2 where es: "es = es1 @ StreamBroke e # es2"
    and f1: "filter is_stream_event es1 = map StreamChunk cs"
    and f2: "filter is_stream_event es2 = []"
    by blast
  from f1 have p1: "stream_events es1 = map StreamChunk cs" by (simp add: stream_events_def)
  let ?s1 = "run v h es1 s"
  from stream_run[OF assms(1-4) p1, of v h]
  have s1: "task ?s1 = Streaming t (f @ concat (map delta_of cs))" "messages ?s1 = messages s"
    "messagesContainer ?s1 = with_text (contentDiv t) (f @ concat (map delta_of cs)) (messagesContainer s)"
    by simp_all
  let ?s2 = "step v h (StreamBroke e) ?s1"
  have s2: "task ?s2 = Idle" "\<not> isStreaming ?s2"
    "messagesContainer ?s2 = messagesContainer ?s1 @ [error_element e]"
    "messages ?s2 = messages ?s1 @ (if v = Plain
                then [\<lparr>role = Assistant, content = ''Error: '' @ errorMessage_of e\<rparr>] else [])"
    using s1(1) by simp_all
  from assms(5) es have "Send \<notin> set es2" by simp
  from idle_run[OF s2(1) s2(2) this, of v h] s1 s2 show ?thesis
    by (simp add: es run_append turn_failed_def)
qed

lemma open_run:
  assumes "task s = AwaitStream t" "busy s" "contentDiv t < length (messagesContainer s)"
    "textContent (messagesContainer s ! contentDiv t) = []"
    "Send \<notin> set es"
    "stream_events es = StreamOpened # map StreamChunk cs @ [StreamDone]"
    "promise_ok v t (promises s)"
  shows "turn_done v h t
           (with_text (contentDiv t) (concat (map delta_of cs)) (messagesContainer s))
           (messages s @ [\<lparr>role = Assistant, content = concat (map delta_of cs)\<rparr>])
           (final_value v h t (promises s) es) (run v h es s)"
  using assms
proof (induction es arbitrary: s)
  case Nil then show ?case by (simp add: stream_events_def)
next
  case (Cons e es)
  show ?case
  proof (cases "is_stream_event e")
    case False
    with Cons.prems have rest: "stream_events es = StreamOpened # map StreamChunk cs @ [StreamDone]"
      by (simp add: stream_events_def)
    note st = side_step[OF Cons.prems(2) False, of t undefined v h, OF disjI1, OF Cons.prems(1)]
    note pr1 = side_promise(1)[where t=t and v=v and h=h and es=es, OF Cons.prems(2) False disjI1, OF Cons.prems(1) Cons.prems(7)]
    note pr2 = side_promise(2)[where t=t and v=v and h=h, OF Cons.prems(2) False disjI1, OF Cons.prems(1) Cons.prems(7)]
    have "turn_done v h t
           (with_text (contentDiv t) (concat (map delta_of cs)) (messagesContainer (step v h e s)))
           (messages (step v h e s) @ [\<lparr>role = Assistant, content = concat (map delta_of cs)\<rparr>])
           (final_value v h t (promises (step v h e s)) es) (run v h es (step v h e s))"
      using st pr2 rest Cons.prems by (intro Cons.IH) simp_all
    then show ?thesis by (simp add: st pr1)
  next
    case True
    with Cons.prems have e: "e = StreamOpened"
      and rest: "stream_events es = map StreamChunk cs @ [StreamDone]"
      by (auto simp: stream_events_def split: if_splits)
    let ?s1 = "s\<lparr>task := Streaming t []\<rparr>"
    have fv: "final_value v h t (promises s) (StreamOpened # es) = final_value v h t (promises s) es"
      by (simp add: final_value_def split: option.splits promise.splits)
    have "turn_done v h t
           (with_text (contentDiv t) ([] @ concat (map delta_of cs)) (messagesContainer ?s1))
           (messages ?s1 @ [\<lparr>role = Assistant, content = [] @ concat (map delta_of cs)\<rparr>])
           (final_value v h t (promises ?s1) es) (run v h es ?s1)"
      using rest Cons.prems by (intro done_run) (simp_all add: busy_def)
    then show ?thesis using Cons.prems(1) by (simp add: e fv)
  qed
qed

lemma fail_run:
  assumes "task s = AwaitStream t" "busy s" "contentDiv t < length (messagesContainer s)"
    "textContent (messagesContainer s ! contentDiv t) = []"
    "Send \<notin> set es"
    "stream_events es = StreamRefused e # [] \<and> cs = []
     \<or> stream_events es = StreamOpened # map StreamChunk cs @ [StreamBroke e]"
  shows "turn_failed v
           (with_text (contentDiv t) (concat (map delta_of cs)) (messagesContainer s))
           (messages s) e (run v h es s)"
  using assms
proof (induction es arbitrary: s)
  case Nil then show ?case by (simp add: stream_events_def)
next
  case (Cons a es)
  show ?case
  proof (cases "is_stream_event a")
    case False
    with Cons.prems have rest: "stream_events es = StreamRefused e # [] \<and> cs = []
     \<or> stream_events es = StreamOpened # map StreamChunk cs @ [StreamBroke e]"
      by (simp add: stream_events_def)
    note st = side_step[OF Cons.prems(2) False, of t undefined v h, OF disjI1, OF Cons.prems(1)]
    have "turn_failed v
           (with_text (contentDiv t) (concat (map delta_of cs)) (messagesContainer (step v h a s)))
           (messages (step v h a s)) e (run v h es (step v h a s))"
      using st rest Cons.prems by (intro Cons.IH) simp_all
    then show ?thesis by (simp add: st)
  next
    case True
    from Cons.prems(6) show ?thesis
    proof
      assume r: "stream_events (a # es) = [StreamRefused e] \<and> cs = []"
      with True have a: "a = StreamRefused e" and rest: "stream_events es = []" and cs: "cs = []"
        by (auto simp: stream_events_def split: if_splits)
      let ?s2 = "step v h a s"
      have s2: "task ?s2 = Idle" "\<not> isStreaming ?s2"
        "messagesContainer ?s2 = messagesContainer s @ [error_element e]"
        "messages ?s2 = messages s @ (if v = Plain
                then [\<lparr>role = Assistant, content = ''Error: '' @ errorMessage_of e\<rparr>] else [])"
        using Cons.prems(1) by (simp_all add: a)
      from Cons.prems(5) have "Send \<notin> set es" by simp
      from idle_run[OF s2(1) s2(2) this, of v h] s2 Cons.prems(4) show ?thesis
        by (simp add: turn_failed_def cs)
    next
      assume r: "stream_events (a # es) = StreamOpened # map StreamChunk cs @ [StreamBroke e]"
      with True have a: "a = StreamOpened"
        and rest: "stream_events es = map StreamChunk cs @ [StreamBroke e]"
        by (auto simp: stream_events_def split: if_splits)
      let ?s1 = "s\<lparr>task := Streaming t []\<rparr>"
      have "turn_failed v
           (with_text (contentDiv t) ([] @ concat (map delta_of cs)) (messagesContainer ?s1))
           (messages ?s1) e (run v h es ?s1)"
        using rest Cons.prems by (intro broke_run) (simp_all add: busy_def)
      then show ?thesis using Cons.prems(1) by (simp add: a)
    qed
  qed
qed

subsection \<open>A whole turn\<close>

lemma step_openai: "openai s \<noteq> None \<Longrightarrow> openai (step v h e s) \<noteq> None"
  by (cases e; cases "task s")
     (auto simp add: small_defs sendMessage_def on_corrections_def on_done_def Let_def split_beta
        after_corrections_fields split: list.splits option.splits promise.splits)

lemma run_openai: "openai s \<noteq> None \<Longrightarrow> openai (run v h es s) \<noteq> None"
proof (induction es arbitrary: s)
  case Nil then show ?case by simp
next
  case (Cons e es)
  from Cons.IH[OF step_openai[OF Cons.prems]] show ?case by simp
qed

lemma step_promises_length:
  "e \<noteq> Send \<Longrightarrow> length (promises (step v h e s)) = length (promises s)"
  by (cases e; cases "task s")
     (auto simp add: small_defs on_corrections_def on_done_def Let_def split_beta
        after_corrections_fields split: list.splits option.splits promise.splits)

lemma run_promises_length:
  "Send \<notin> set es \<Longrightarrow> length (promises (run v h es s)) = length (promises s)"
  by (induction es arbitrary: s) (auto simp add: step_promises_length)

lemma new_elements_nth [simp]:
  "(els @ new_elements c) ! Suc (length els) = \<lparr>el_role = Assistant, textContent = [], corrections = []\<rparr>"
  "(els @ new_elements c) ! length els = \<lparr>el_role = User, textContent = c, corrections = []\<rparr>"
  "length (new_elements c) = 2"
  by (simp_all add: new_elements_def nth_append)

lemma first_turn_simps [simp]:
  "contentDiv (first_turn v s) = Suc (length (messagesContainer s))"
  "userMessageElement (first_turn v s) = length (messagesContainer s)"
  "correctionsPromise (first_turn v s) = (if v = Plain then None else Some (length (promises s)))"
  "first_turn v (s\<lparr>userInput := text\<rparr>) = first_turn v s"
  by (simp_all add: first_turn_def)

lemma turn_completed:
  assumes "idle s" "trim text \<noteq> []" "Send \<notin> set es"
    "stream_events es = reply_events (Completed cs)"
  shows "turn_done v h (first_turn v s)
           (with_text (Suc (length (messagesContainer s))) (concat (map delta_of cs))
              (messagesContainer s @ new_elements (trim text)))
           (messages s @ [\<lparr>role = User, content = trim text\<rparr>,
                          \<lparr>role = Assistant, content = concat (map delta_of cs)\<rparr>])
           (if v = Plain then Some JNull else resolved_with v h (length (promises s)) es)
           (run v h (Input text # Send # es) s)"
proof -
  let ?s0 = "s\<lparr>userInput := text\<rparr>"
  let ?s1 = "sendMessage v ?s0"
  from assms(1,2) have pre: "\<not> isStreaming ?s0" "openai ?s0 \<noteq> None" "trim (userInput ?s0) \<noteq> []"
    by (simp_all add: idle_def)
  note sd = send_idle[OF pre, of v]
  have ok: "promise_ok v (first_turn v s) (promises ?s1)"
    using sd(5) by (simp add: promise_ok_def)
  have fv: "final_value v h (first_turn v s) (promises ?s1) es
            = (if v = Plain then Some JNull else resolved_with v h (length (promises s)) es)"
    using sd(5) by (simp add: final_value_def)
  have "turn_done v h (first_turn v s)
           (with_text (contentDiv (first_turn v s)) (concat (map delta_of cs)) (messagesContainer ?s1))
           (messages ?s1 @ [\<lparr>role = Assistant, content = concat (map delta_of cs)\<rparr>])
           (final_value v h (first_turn v s) (promises ?s1) es) (run v h es ?s1)"
    using sd ok assms(3,4) by (intro open_run) simp_all
  then show ?thesis by (simp add: sd(3,4) fv)
qed

lemma turn_fails:
  assumes "idle s" "trim text \<noteq> []" "Send \<notin> set es"
    "stream_events es = reply_events (Refused e) \<and> cs = []
     \<or> stream_events es = reply_events (Broke cs e)"
  shows "turn_failed v
           (with_text (Suc (length (messagesContainer s))) (concat (map delta_of cs))
              (messagesContainer s @ new_elements (trim text)))
           (messages s @ [\<lparr>role = User, content = trim text\<rparr>]) e
           (run v h (Input text # Send # es) s)"
proof -
  let ?s0 = "s\<lparr>userInput := text\<rparr>"
  let ?s1 = "sendMessage v ?s0"
  from assms(1,2) have pre: "\<not> isStreaming ?s0" "openai ?s0 \<noteq> None" "trim (userInput ?s0) \<noteq> []"
    by (simp_all add: idle_def)
  note sd = send_idle[OF pre, of v]
  have "turn_failed v
           (with_text (contentDiv (first_turn v s)) (concat (map delta_of cs)) (messagesContainer ?s1))
           (messages ?s1) e (run v h es ?s1)"
    using sd assms(3,4) by (intro fail_run) simp_all
  then show ?thesis by (simp add: sd(3,4))
qed

subsection \<open>Sequences of turns, and the fresh application\<close>

lemma resolved_with_settles: "resolved_with v h i es \<noteq> None \<longleftrightarrow> settles i es"
  unfolding settles_def
proof (induction es)
  case Nil then show ?case by simp
next
  case (Cons e es) then show ?case by (cases e) auto
qed

lemma good_turns_run:
  assumes "idle s" "v \<noteq> Plain \<longrightarrow> length (promises s) = n" "good_turns v n ts"
  shows "messages (run v h (concat (map turn_events ts)) s) = messages s @ concat (map turn_messages ts)
       \<and> idle (run v h (concat (map turn_events ts)) s)"
  using assms
proof (induction ts arbitrary: s n)
  case Nil then show ?case by simp
next
  case (Cons t ts)
  obtain inp cs es where t: "t = (inp, cs, es)" by (cases t) auto
  from Cons.prems(3) t have g: "trim inp \<noteq> []" "Send \<notin> set es"
    "stream_events es = reply_events (Completed cs)" "v = Plain \<or> settles n es"
    and rest: "good_turns v (Suc n) ts" by simp_all
  let ?s1 = "run v h (Input inp # Send # es) s"
  from g(4) Cons.prems(2) obtain x where
    fv: "(if v = Plain then Some JNull else resolved_with v h (length (promises s)) es) = Some x"
    using resolved_with_settles[of v h n es] by (cases "v = Plain") auto
  from turn_completed[OF Cons.prems(1) g(1-3), of v h] fv
  have s1: "messages ?s1 = messages s @ turn_messages t" "task ?s1 = Idle" "\<not> isStreaming ?s1"
    by (simp_all add: turn_done_def t)
  from Cons.prems(1) have "openai s \<noteq> None" by (simp add: idle_def)
  from run_openai[OF this, of v h "Input inp # Send # es"] s1 have idle1: "idle ?s1"
    by (simp add: idle_def)
  have len: "v \<noteq> Plain \<longrightarrow> length (promises ?s1) = Suc n"
  proof
    assume v: "v \<noteq> Plain"
    let ?s0 = "s\<lparr>userInput := inp\<rparr>"
    from Cons.prems(1) g(1) have pre: "\<not> isStreaming ?s0" "openai ?s0 \<noteq> None" "trim (userInput ?s0) \<noteq> []"
      by (simp_all add: idle_def)
    from send_idle(5)[OF pre, of v] v Cons.prems(2)
    have "length (promises (sendMessage v ?s0)) = Suc n" by simp
    with run_promises_length[OF g(2), of v h "sendMessage v ?s0"]
    show "length (promises ?s1) = Suc n" by simp
  qed
  from Cons.IH[OF idle1 len rest] s1 show ?case
    by (simp add: t run_append)
qed

lemma ChatApp_with_key:
  assumes "key \<noteq> []"
  shows "idle (ChatApp v (Some key) hidden)"
    and "promises (ChatApp v (Some key) hidden) = []"
    and "messages (ChatApp v (Some key) hidden) = (if v = Plain then [] else [system_message])"
    and "messagesContainer (ChatApp v (Some key) hidden) = []"
    and "requests (ChatApp v (Some key) hidden) = []"
  using assms
  by (simp_all add: ChatApp_def init_def loadApiKey_def blank_def idle_def showSettings_def Let_def)

lemma roles_of_turns:
  "map role (concat (map turn_messages ts)) = concat (replicate (length ts) [User, Assistant])"
  by (induction ts) auto

lemma failed_turn_messages:
  assumes "idle s" "trim inp \<noteq> []" "Send \<notin> set es" "stream_events es = reply_events rp"
    "failed rp"
  shows "messages (run v h (Input inp # Send # es) s)
         = messages s @ [\<lparr>role = User, content = trim inp\<rparr>]
           @ (if v = Plain
              then [\<lparr>role = Assistant,
                     content = ''Error: '' @ errorMessage_of (case rp of Refused e \<Rightarrow> e | Broke cs e \<Rightarrow> e)\<rparr>]
              else [])"
proof (cases rp)
  case (Completed cs) with assms(5) show ?thesis by simp
next
  case (Refused e)
  from turn_fails[OF assms(1-3), of e "[]" v h] assms(4) Refused show ?thesis
    by (simp add: turn_failed_def)
next
  case (Broke cs e)
  from turn_fails[OF assms(1-3), of e cs v h] assms(4) Broke show ?thesis
    by (simp add: turn_failed_def)
qed

lemmas eval_defs = ChatApp_def init_def loadApiKey_def blank_def showSettings_def hideSettings_def
  createMessageElement_def addMessage_def saveApiKey_def catch_block_def finally_block_def
  set_textContent_def append_corrections_def getCorrections_def getCorrections_resume_def
  getCorrections_try_def on_chunk_def on_done_def on_corrections_def after_corrections_def
  addCorrectionsToMessage_def sendMessage_def promise_at_def errorMessage_of_def trim_def
  is_space_def Let_def text_chunk_def text_reply_def raise_def

subsection \<open>A turn in flight\<close>

lemma inflight_run:
  assumes "task s = AwaitStream t" "busy s" "contentDiv t < length (messagesContainer s)"
    "textContent (messagesContainer s ! contentDiv t) = []"
    "stream_events es = StreamOpened # map StreamChunk cs"
  shows "task (run v h es s) = Streaming t (concat (map delta_of cs)) \<and> busy (run v h es s)
       \<and> messages (run v h es s) = messages s
       \<and> messagesContainer (run v h es s)
           = with_text (contentDiv t) (concat (map delta_of cs)) (messagesContainer s)
       \<and> requests (run v h es s) = requests s
       \<and> length (promises (run v h es s)) = length (promises s)"
  using assms
proof (induction es arbitrary: s)
  case Nil then show ?case by (simp add: stream_events_def)
next
  case (Cons e es)
  show ?case
  proof (cases "is_stream_event e")
    case False
    with Cons.prems have rest: "stream_events es = StreamOpened # map StreamChunk cs"
      by (simp add: stream_events_def)
    note st = side_step[OF Cons.prems(2) False, of t undefined v h, OF disjI1, OF Cons.prems(1)]
    from Cons.IH[of "step v h e s"] st rest Cons.prems show ?thesis by simp
  next
    case True
    with Cons.prems have e: "e = StreamOpened" and rest: "stream_events es = map StreamChunk cs"
      by (auto simp: stream_events_def split: if_splits)
    let ?s1 = "s\<lparr>task := Streaming t []\<rparr>"
    have "task (run v h es ?s1) = Streaming t ([] @ concat (map delta_of cs)) \<and> busy (run v h es ?s1)
       \<and> messages (run v h es ?s1) = messages ?s1
       \<and> messagesContainer (run v h es ?s1)
           = with_text (contentDiv t) ([] @ concat (map delta_of cs)) (messagesContainer ?s1)
       \<and> requests (run v h es ?s1) = requests ?s1
       \<and> length (promises (run v h es ?s1)) = length (promises ?s1)"
      using rest Cons.prems by (intro stream_run) (simp_all add: busy_def)
    then show ?thesis using Cons.prems(1) by (simp add: e)
  qed
qed

lemma with_text_nth [simp]:
  "i < length els \<Longrightarrow> textContent (with_text i f els ! i) = f"
  "j \<noteq> i \<Longrightarrow> with_text i f els ! j = els ! j"
  "corrections (with_text i f els ! j) = corrections (els ! j)"
  by (cases "i < length els"; cases "i = j"; simp add: with_text_def list_update_beyond)+

lemma shown_textContent:
  "i < length els \<Longrightarrow> textContent (shown v h u x els ! i) = textContent (els ! i)"
  by (cases "i = u")
     (auto simp add: shown_def with_corrections_def nth_append split: sum.splits option.splits)

lemma inflight_turn:
  assumes "idle s" "trim inp \<noteq> []" "stream_events es = StreamOpened # map StreamChunk cs"
  shows "task (run v h (Input inp # Send # es) s)
           = Streaming (first_turn v s) (concat (map delta_of cs))"
    and "isStreaming (run v h (Input inp # Send # es) s)"
    and "messages (run v h (Input inp # Send # es) s)
           = messages s @ [\<lparr>role = User, content = trim inp\<rparr>]"
    and "messagesContainer (run v h (Input inp # Send # es) s)
           = with_text (Suc (length (messagesContainer s))) (concat (map delta_of cs))
               (messagesContainer s @ new_elements (trim inp))"
proof -
  let ?s0 = "s\<lparr>userInput := inp\<rparr>"
  let ?s1 = "sendMessage v ?s0"
  from assms(1,2) have pre: "\<not> isStreaming ?s0" "openai ?s0 \<noteq> None" "trim (userInput ?s0) \<noteq> []"
    by (simp_all add: idle_def)
  note sd = send_idle[OF pre, of v]
  have r: "task (run v h es ?s1) = Streaming (first_turn v s) (concat (map delta_of cs)) \<and> busy (run v h es ?s1)
       \<and> messages (run v h es ?s1) = messages ?s1
       \<and> messagesContainer (run v h es ?s1)
           = with_text (contentDiv (first_turn v s)) (concat (map delta_of cs)) (messagesContainer ?s1)
       \<and> requests (run v h es ?s1) = requests ?s1
       \<and> length (promises (run v h es ?s1)) = length (promises ?s1)"
    using sd assms(3) by (intro inflight_run) simp_all
  from r show "task (run v h (Input inp # Send # es) s)
           = Streaming (first_turn v s) (concat (map delta_of cs))" by simp
  from r show "isStreaming (run v h (Input inp # Send # es) s)" by (simp add: busy_def)
  from r show "messages (run v h (Input inp # Send # es) s)
           = messages s @ [\<lparr>role = User, content = trim inp\<rparr>]" by (simp add: sd(3))
  from r show "messagesContainer (run v h (Input inp # Send # es) s)
           = with_text (Suc (length (messagesContainer s))) (concat (map delta_of cs))
               (messagesContainer s @ new_elements (trim inp))" by (simp add: sd(4))
qed

subsection \<open>Facts about every run\<close>

lemma step_busy_inv:
  assumes "isStreaming s \<longrightarrow> openai s \<noteq> None"
  shows "isStreaming (step v h e s) \<longrightarrow> openai (step v h e s) \<noteq> None"
proof (cases "openai s")
  case None
  with assms have "\<not> isStreaming s" by simp
  with None show ?thesis
    by (cases e; cases "task s")
       (auto simp add: small_defs sendMessage_def on_corrections_def on_done_def Let_def split_beta
          after_corrections_fields split: list.splits option.splits promise.splits)
next
  case (Some k)
  then have "openai s \<noteq> None" by simp
  from step_openai[OF this] show ?thesis by simp
qed

lemma run_busy_inv:
  "isStreaming s \<longrightarrow> openai s \<noteq> None \<Longrightarrow>
   isStreaming (run v h es s) \<longrightarrow> openai (run v h es s) \<noteq> None"
proof (induction es arbitrary: s)
  case Nil then show ?case by simp
next
  case (Cons e es)
  from Cons.IH[OF step_busy_inv[OF Cons.prems]] show ?case by simp
qed

lemma ChatApp_not_streaming: "\<not> isStreaming (ChatApp v stored hidden)"
  by (simp add: ChatApp_def init_def loadApiKey_def blank_def showSettings_def Let_def
      split: option.splits)

lemma includes_str_sublist: "includes_str s sub = sublist sub s"
  by (induction s) (simp_all add: sublist_Cons_right)

lemma catch_more_fields [simp]:
  "timers (catch_block v e s)
     = timers s @ (if sublist ''401'' (errorMessage_of e) \<or> sublist ''API key'' (errorMessage_of e)
                   then [1000] else [])"
  "settingsModal_hidden (catch_block v e s) = settingsModal_hidden s"
  "alerts (catch_block v e s) = alerts s"
  by (simp_all add: catch_block_def Let_def addMessage_def createMessageElement_def
      includes_str_sublist)

lemma no_key_step:
  assumes "openai s = None" "task s = Idle" "promises s = []" "\<And>k. e \<noteq> SaveKey k"
  shows "openai (step v h e s) = None \<and> task (step v h e s) = Idle \<and> promises (step v h e s) = []
       \<and> requests (step v h e s) = requests s \<and> messages (step v h e s) = messages s"
proof (cases e)
  case (SaveKey k)
  with assms(4) show ?thesis by blast
qed (use assms(1-3) in \<open>simp_all add: small_defs sendMessage_def on_corrections_def split: list.splits\<close>)

lemma no_key_run:
  assumes "openai s = None" "task s = Idle" "promises s = []" "\<forall>k. SaveKey k \<notin> set es"
  shows "requests (run v h es s) = requests s \<and> messages (run v h es s) = messages s"
  using assms
proof (induction es arbitrary: s)
  case Nil then show ?case by simp
next
  case (Cons e es)
  from Cons.prems(4) have ne: "\<And>k. e \<noteq> SaveKey k" and rest: "\<forall>k. SaveKey k \<notin> set es"
    by auto
  note st = no_key_step[OF Cons.prems(1-3) ne, of v h]
  from Cons.IH[of "step v h e s"] st rest show ?case by simp
qed

lemma ChatApp_without_key:
  "openai (ChatApp v None hidden) = None"
  "task (ChatApp v None hidden) = Idle"
  "promises (ChatApp v None hidden) = []"
  "requests (ChatApp v None hidden) = []"
  by (simp_all add: ChatApp_def init_def loadApiKey_def blank_def showSettings_def Let_def)

subsection \<open>Corrections\<close>

lemma shown_corrections:
  "u < length els \<Longrightarrow> corrections (shown v h u x els ! u) = corrections (els ! u) @ attached v x"
  by (auto simp add: shown_def attached_def with_corrections_def nth_append
      split: sum.splits option.splits)

lemma awaiting_turn:
  assumes "idle s" "trim inp \<noteq> []" "stream_events es = []"
  shows "task (run v h (Input inp # Send # es) s) = AwaitStream (first_turn v s)"
    and "isStreaming (run v h (Input inp # Send # es) s)"
    and "messagesContainer (run v h (Input inp # Send # es) s)
           = messagesContainer s @ new_elements (trim inp)"
proof -
  let ?s0 = "s\<lparr>userInput := inp\<rparr>"
  let ?s1 = "sendMessage v ?s0"
  from assms(1,2) have pre: "\<not> isStreaming ?s0" "openai ?s0 \<noteq> None" "trim (userInput ?s0) \<noteq> []"
    by (simp_all add: idle_def)
  note sd = send_idle[OF pre, of v]
  note r = await_run[OF sd(1) sd(2) assms(3), of v h]
  from r show "task (run v h (Input inp # Send # es) s) = AwaitStream (first_turn v s)" by simp
  from r show "isStreaming (run v h (Input inp # Send # es) s)" by (simp add: busy_def)
  from r show "messagesContainer (run v h (Input inp # Send # es) s)
           = messagesContainer s @ new_elements (trim inp)" by (simp add: sd(4))
qed

lemma shown_other:
  assumes "u < length els" "u' \<noteq> u"
  shows "u < length (shown v h u' x els)"
    and "corrections (shown v h u' x els ! u) = corrections (els ! u)"
  using assms
  by (auto simp add: shown_def with_corrections_def nth_append split: sum.splits option.splits)

text \<open>Once a turn is abandoned it stays so, whatever happens.\<close>

lemma abandoned_send:
  assumes "abandoned u i s"
  shows "abandoned u i (sendMessage v s)"
proof (cases "openai s \<noteq> None \<and> trim (userInput s) \<noteq> [] \<and> \<not> isStreaming s")
  case True
  then have pre: "\<not> isStreaming s" "openai s \<noteq> None" "trim (userInput s) \<noteq> []" by simp_all
  note sd = send_idle[OF pre, of v]
  from assms show ?thesis
    by (auto simp add: abandoned_def sd nth_append split: option.splits)
next
  case False
  with assms show ?thesis
    by (auto simp add: abandoned_def sendMessage_def showSettings_def Let_def)
qed

lemma abandoned_step:
  assumes "abandoned u i s"
  shows "abandoned u i (step v h e s)"
proof (cases e)
  case Send
  with abandoned_send[OF assms] show ?thesis by simp
next
  case (CorrectionsSettled j r)
  with assms show ?thesis
    by (cases "task s")
       (auto simp add: abandoned_def on_corrections_def split_beta Let_def after_corrections_fields
          shown_other nth_list_update)
next
  case StreamDone
  with assms show ?thesis
    by (cases "task s")
       (auto simp add: abandoned_def on_done_def Let_def after_corrections_fields shown_other
          split: option.splits promise.splits)
next
  case (StreamChunk c)
  with assms show ?thesis
    by (cases "task s")
       (auto simp add: abandoned_def on_chunk_def set_textContent_def Let_def nth_list_update)
next
  case (Input x)
  with assms show ?thesis by (simp add: abandoned_def)
next
  case OpenSettings
  with assms show ?thesis by (simp add: abandoned_def showSettings_def)
next
  case CloseSettings
  with assms show ?thesis by (simp add: abandoned_def hideSettings_def)
next
  case (SaveKey k)
  with assms show ?thesis by (simp add: abandoned_def saveApiKey_def hideSettings_def Let_def)
next
  case Timeout
  with assms show ?thesis by (simp add: abandoned_def showSettings_def split: list.splits)
next
  case StreamOpened
  with assms show ?thesis by (cases "task s") (simp_all add: abandoned_def)
next
  case (StreamRefused x)
  with assms show ?thesis by (cases "task s") (simp_all add: abandoned_def nth_append)
next
  case (StreamBroke x)
  with assms show ?thesis by (cases "task s") (simp_all add: abandoned_def nth_append)
qed

lemma abandoned_run: "abandoned u i s \<Longrightarrow> abandoned u i (run v h es s)"
  by (induction es arbitrary: s) (simp_all add: abandoned_step)

lemma unusable_value: "unusable v h r \<Longrightarrow> getCorrections_value v h r = JNull"
  by (auto simp add: unusable_def getCorrections_value_def getCorrections_try_def
      split: settled.splits option.splits)

lemma resolved_with_first:
  "\<not> settles i es1 \<Longrightarrow>
   resolved_with v h i (es1 @ CorrectionsSettled i r # es2) = Some (getCorrections_value v h r)"
proof (induction es1)
  case Nil then show ?case by simp
next
  case (Cons e es1) then show ?case by (cases e) (auto simp add: settles_def)
qed

lemma on_corrections_busy:
  "isStreaming (on_corrections v h i r s) = isStreaming (on_corrections v h i r' s)"
  by (cases "task s")
     (simp_all add: on_corrections_def split_beta Let_def after_corrections_fields)

lemma on_corrections_null:
  assumes "getCorrections_value v h r = JNull"
  shows "messagesContainer (on_corrections v h i r s) = messagesContainer s"
    and "messages (on_corrections v h i r s) = messages s"
    and "alerts (on_corrections v h i r s) = alerts s"
    and "timers (on_corrections v h i r s) = timers s"
    and "settingsModal_hidden (on_corrections v h i r s) = settingsModal_hidden s"
  using assms
  by (cases "task s";
      simp add: on_corrections_def split_beta Let_def after_corrections_def)+

lemma with_text_new_elements:
  "with_text (Suc (length els)) f (els @ new_elements c)
   = els @ [\<lparr>el_role = User, textContent = c, corrections = []\<rparr>,
            \<lparr>el_role = Assistant, textContent = f, corrections = []\<rparr>]"
  by (simp add: with_text_def new_elements_def list_update_append nth_append)

text \<open>Data that matches the schema never makes \<open>addCorrectionsToMessage\<close> throw.\<close>

lemma is_JStr_ToString: "is_JStr x \<Longrightarrow> \<exists>t. ToString_opt x = Inr t"
  by (cases x rule: is_JStr.cases) simp_all

lemma matches_item_formats: "matches_item c \<Longrightarrow> \<exists>t. format_correction c = Inr t"
proof (cases c)
  case (JObj kvs)
  assume "matches_item c"
  with JObj have s: "is_JStr (map_of kvs ''suggestion'')" and e: "is_JStr (map_of kvs ''explanation'')"
    by simp_all
  from is_JStr_ToString[OF s] is_JStr_ToString[OF e] JObj show ?thesis
    by (auto simp add: format_correction_def Let_def)
qed simp_all

lemma matches_items_format: "list_all matches_item xs \<Longrightarrow> \<exists>ts. format_corrections xs = Inr ts"
proof (induction xs)
  case Nil then show ?case by simp
next
  case (Cons c xs)
  then obtain t ts where "format_correction c = Inr t" "format_corrections xs = Inr ts"
    using matches_item_formats[of c] by auto
  then show ?case by simp
qed

lemma matches_schema_never_throws: "matches_schema x \<Longrightarrow> \<exists>r. correctionsText x = Inr r"
proof (cases x)
  case (JObj kvs)
  assume m: "matches_schema x"
  with JObj obtain b xs where hc: "map_of kvs ''hasCorrections'' = Some (JBool b)"
    and cs: "map_of kvs ''corrections'' = Some (JArr xs)" and it: "list_all matches_item xs"
    by (auto split: option.splits jsval.splits)
  from matches_items_format[OF it] obtain ts where "format_corrections xs = Inr ts" by blast
  with JObj hc cs show ?thesis
    by (simp add: correctionsText_def)
qed simp_all

section \<open>The claims\<close>

text \<open>
  C1. As stated the claim fails: a turn whose reply fails has already pushed the user's
  message, which stays in the history. Here the request of \<open>Structured\<close> is rejected and
  the history has grown by the user's message.
\<close>

theorem failed_turn_keeps_user_message:
  "messages (run Structured sample_host
       [Input ''hola'', Send, StreamRefused (ErrorObj ''Connection error.'')]
       (ChatApp Structured (Some ''sk-test'') True))
   = messages (ChatApp Structured (Some ''sk-test'') True) @ [\<lparr>role = User, content = ''hola''\<rparr>]"
  by (simp add: eval_defs)

text \<open>
  C1, amended. From a fresh application with a stored key, after any sequence of turns that
  were accepted and whose replies all completed, the history is the system message
  (none in \<open>Plain\<close>) followed by, for every turn, the user's trimmed message and the
  assistant's message, so twice as many messages as turns, alternating. A turn whose reply
  fails appends the user's message; in \<open>Notes\<close> and \<open>Structured\<close> it appends nothing
  else.
\<close>

theorem history_after_turns:
  assumes "key \<noteq> []"
  shows "(good_turns v 0 ts \<longrightarrow>
            messages (run v h (concat (map turn_events ts)) (ChatApp v (Some key) hidden))
              = (if v = Plain then [] else [system_message]) @ concat (map turn_messages ts)
          \<and> map role (messages (run v h (concat (map turn_events ts)) (ChatApp v (Some key) hidden)))
              = (if v = Plain then [] else [System]) @ concat (replicate (length ts) [User, Assistant]))
       \<and> (idle s \<longrightarrow> trim inp \<noteq> [] \<longrightarrow> Send \<notin> set es \<longrightarrow>
            stream_events es = reply_events rp \<longrightarrow> failed rp \<longrightarrow>
            prefix (messages s @ [\<lparr>role = User, content = trim inp\<rparr>])
                   (messages (run v h (Input inp # Send # es) s))
          \<and> (v \<noteq> Plain \<longrightarrow>
               messages (run v h (Input inp # Send # es) s)
                 = messages s @ [\<lparr>role = User, content = trim inp\<rparr>]))"
proof (intro conjI impI)
  assume g: "good_turns v 0 ts"
  note a = ChatApp_with_key[OF assms, of v hidden]
  from good_turns_run[OF a(1) _ g, of h] a(2,3)
  show m: "messages (run v h (concat (map turn_events ts)) (ChatApp v (Some key) hidden))
              = (if v = Plain then [] else [system_message]) @ concat (map turn_messages ts)"
    by simp
  show "map role (messages (run v h (concat (map turn_events ts)) (ChatApp v (Some key) hidden)))
              = (if v = Plain then [] else [System]) @ concat (replicate (length ts) [User, Assistant])"
    unfolding m by (simp add: roles_of_turns system_message_def)
next
  assume h: "idle s" "trim inp \<noteq> []" "Send \<notin> set es" "stream_events es = reply_events rp" "failed rp"
  from failed_turn_messages[OF h, of v h]
  show "prefix (messages s @ [\<lparr>role = User, content = trim inp\<rparr>])
                   (messages (run v h (Input inp # Send # es) s))"
    by (simp add: prefix_def)
  assume "v \<noteq> Plain"
  with failed_turn_messages[OF h, of v h]
  show "messages (run v h (Input inp # Send # es) s)
                 = messages s @ [\<lparr>role = User, content = trim inp\<rparr>]"
    by simp
qed

theorem history_after_turns_witness:
  "''sk-test'' \<noteq> []
   \<and> good_turns Structured 0
        [(''hola'', [text_chunk ''Ho'', text_chunk ''la''],
          [StreamOpened, StreamChunk (text_chunk ''Ho''), CorrectionsSettled 0 (text_reply ''{}''),
           StreamChunk (text_chunk ''la''), StreamDone]),
         ('' yo es '', [text_chunk ''Muy bien''],
          [StreamOpened, StreamChunk (text_chunk ''Muy bien''), StreamDone,
           CorrectionsSettled 1 (Rejected NonError)])]
   \<and> messages (run Structured sample_host
        (concat (map turn_events
          [(''hola'', [text_chunk ''Ho'', text_chunk ''la''],
            [StreamOpened, StreamChunk (text_chunk ''Ho''), CorrectionsSettled 0 (text_reply ''{}''),
             StreamChunk (text_chunk ''la''), StreamDone]),
           ('' yo es '', [text_chunk ''Muy bien''],
            [StreamOpened, StreamChunk (text_chunk ''Muy bien''), StreamDone,
             CorrectionsSettled 1 (Rejected NonError)])]))
        (ChatApp Structured (Some ''sk-test'') True))
      = [system_message, \<lparr>role = User, content = ''hola''\<rparr>,
         \<lparr>role = Assistant, content = ''Hola''\<rparr>, \<lparr>role = User, content = ''yo es''\<rparr>,
         \<lparr>role = Assistant, content = ''Muy bien''\<rparr>]
   \<and> idle (ChatApp Structured (Some ''sk-test'') True)
   \<and> trim ''hola'' \<noteq> []
   \<and> Send \<notin> set [StreamOpened, StreamChunk (text_chunk ''Ho''), StreamBroke (ErrorObj ''terminated'')]
   \<and> stream_events [StreamOpened, StreamChunk (text_chunk ''Ho''), StreamBroke (ErrorObj ''terminated'')]
       = reply_events (Broke [text_chunk ''Ho''] (ErrorObj ''terminated''))
   \<and> failed (Broke [text_chunk ''Ho''] (ErrorObj ''terminated''))
   \<and> messages (run Structured sample_host
         (Input ''hola'' # Send #
            [StreamOpened, StreamChunk (text_chunk ''Ho''), StreamBroke (ErrorObj ''terminated'')])
         (ChatApp Structured (Some ''sk-test'') True))
       = [system_message, \<lparr>role = User, content = ''hola''\<rparr>]"
proof -
  have k: "''sk-test'' \<noteq> []" by simp
  have g: "good_turns Structured 0
        [(''hola'', [text_chunk ''Ho'', text_chunk ''la''],
          [StreamOpened, StreamChunk (text_chunk ''Ho''), CorrectionsSettled 0 (text_reply ''{}''),
           StreamChunk (text_chunk ''la''), StreamDone]),
         ('' yo es '', [text_chunk ''Muy bien''],
          [StreamOpened, StreamChunk (text_chunk ''Muy bien''), StreamDone,
           CorrectionsSettled 1 (Rejected NonError)])]"
    by (simp add: trim_def is_space_def stream_events_def settles_def)
  have i: "idle (ChatApp Structured (Some ''sk-test'') True)"
    by (simp add: idle_def eval_defs)
  have t: "trim ''hola'' \<noteq> []" by (simp add: trim_def is_space_def)
  have p: "stream_events [StreamOpened, StreamChunk (text_chunk ''Ho''), StreamBroke (ErrorObj ''terminated'')]
       = reply_events (Broke [text_chunk ''Ho''] (ErrorObj ''terminated''))"
    by (simp add: stream_events_def)
  note th = history_after_turns[OF k, where v = Structured and h = sample_host and hidden = True
      and s = "ChatApp Structured (Some ''sk-test'') True" and inp = "''hola''"
      and es = "[StreamOpened, StreamChunk (text_chunk ''Ho''), StreamBroke (ErrorObj ''terminated'')]"
      and rp = "Broke [text_chunk ''Ho''] (ErrorObj ''terminated'')"
      and ts = "[(''hola'', [text_chunk ''Ho'', text_chunk ''la''],
          [StreamOpened, StreamChunk (text_chunk ''Ho''), CorrectionsSettled 0 (text_reply ''{}''),
           StreamChunk (text_chunk ''la''), StreamDone]),
         ('' yo es '', [text_chunk ''Muy bien''],
          [StreamOpened, StreamChunk (text_chunk ''Muy bien''), StreamDone,
           CorrectionsSettled 1 (Rejected NonError)])]"]
  from th have A: "messages (run Structured sample_host
        (concat (map turn_events
          [(''hola'', [text_chunk ''Ho'', text_chunk ''la''],
            [StreamOpened, StreamChunk (text_chunk ''Ho''), CorrectionsSettled 0 (text_reply ''{}''),
             StreamChunk (text_chunk ''la''), StreamDone]),
           ('' yo es '', [text_chunk ''Muy bien''],
            [StreamOpened, StreamChunk (text_chunk ''Muy bien''), StreamDone,
             CorrectionsSettled 1 (Rejected NonError)])]))
        (ChatApp Structured (Some ''sk-test'') True))
      = (if Structured = Plain then [] else [system_message]) @ concat (map turn_messages
          [(''hola'', [text_chunk ''Ho'', text_chunk ''la''],
            [StreamOpened, StreamChunk (text_chunk ''Ho''), CorrectionsSettled 0 (text_reply ''{}''),
             StreamChunk (text_chunk ''la''), StreamDone]),
           ('' yo es '', [text_chunk ''Muy bien''],
            [StreamOpened, StreamChunk (text_chunk ''Muy bien''), StreamDone,
             CorrectionsSettled 1 (Rejected NonError)])])"
    using g by blast
  have B: "(if Structured = Plain then [] else [system_message]) @ concat (map turn_messages
          [(''hola'', [text_chunk ''Ho'', text_chunk ''la''],
            [StreamOpened, StreamChunk (text_chunk ''Ho''), CorrectionsSettled 0 (text_reply ''{}''),
             StreamChunk (text_chunk ''la''), StreamDone]),
           ('' yo es '', [text_chunk ''Muy bien''],
            [StreamOpened, StreamChunk (text_chunk ''Muy bien''), StreamDone,
             CorrectionsSettled 1 (Rejected NonError)])])
     = [system_message, \<lparr>role = User, content = ''hola''\<rparr>,
         \<lparr>role = Assistant, content = ''Hola''\<rparr>, \<lparr>role = User, content = ''yo es''\<rparr>,
         \<lparr>role = Assistant, content = ''Muy bien''\<rparr>]"
    by (simp add: trim_def is_space_def text_chunk_def)
  have f: "failed (Broke [text_chunk ''Ho''] (ErrorObj ''terminated''))" by simp
  have s: "Send \<notin> set [StreamOpened, StreamChunk (text_chunk ''Ho''), StreamBroke (ErrorObj ''terminated'')]"
    by simp
  from th i t s p f have C: "messages (run Structured sample_host
         (Input ''hola'' # Send #
            [StreamOpened, StreamChunk (text_chunk ''Ho''), StreamBroke (ErrorObj ''terminated'')])
         (ChatApp Structured (Some ''sk-test'') True))
       = messages (ChatApp Structured (Some ''sk-test'') True) @ [\<lparr>role = User, content = trim ''hola''\<rparr>]"
    by blast
  have D: "messages (ChatApp Structured (Some ''sk-test'') True) @ [\<lparr>role = User, content = trim ''hola''\<rparr>]
       = [system_message, \<lparr>role = User, content = ''hola''\<rparr>]"
    by (simp add: ChatApp_with_key(3) trim_def is_space_def)
  from k g i t s p f A[unfolded B] C[unfolded D] show ?thesis by blast
qed

text \<open>
  C2. In a turn that was accepted, whatever else happens meanwhile: when the stream has
  been opened and has yielded the chunks \<open>cs\<close>, the placeholder of the assistant (the
  second element that the turn created) shows the deltas of \<open>cs\<close> concatenated in the
  order of arrival; and once the stream has ended, the assistant's message pushed to the
  history has exactly this concatenation as its content, which the placeholder still shows.
\<close>

theorem deltas_shown_and_committed:
  assumes "idle s" "trim inp \<noteq> []"
  shows "(stream_events es = StreamOpened # map StreamChunk cs \<longrightarrow>
            textContent (messagesContainer (run v h (Input inp # Send # es) s)
                           ! Suc (length (messagesContainer s)))
              = concat (map delta_of cs))
       \<and> (Send \<notin> set es \<longrightarrow> stream_events es = reply_events (Completed cs) \<longrightarrow>
            messages (run v h (Input inp # Send # es) s)
              = messages s @ [\<lparr>role = User, content = trim inp\<rparr>,
                              \<lparr>role = Assistant, content = concat (map delta_of cs)\<rparr>]
          \<and> textContent (messagesContainer (run v h (Input inp # Send # es) s)
                           ! Suc (length (messagesContainer s)))
              = concat (map delta_of cs))"
proof (intro conjI impI)
  assume "stream_events es = StreamOpened # map StreamChunk cs"
  from inflight_turn(4)[OF assms this, of v h]
  show "textContent (messagesContainer (run v h (Input inp # Send # es) s)
                           ! Suc (length (messagesContainer s)))
              = concat (map delta_of cs)"
    by simp
next
  assume a: "Send \<notin> set es" "stream_events es = reply_events (Completed cs)"
  note td = turn_completed[OF assms a, of v h]
  from td show "messages (run v h (Input inp # Send # es) s)
              = messages s @ [\<lparr>role = User, content = trim inp\<rparr>,
                              \<lparr>role = Assistant, content = concat (map delta_of cs)\<rparr>]"
    by (simp add: turn_done_def)
  from td show "textContent (messagesContainer (run v h (Input inp # Send # es) s)
                           ! Suc (length (messagesContainer s)))
              = concat (map delta_of cs)"
    by (auto simp add: turn_done_def shown_textContent split: option.splits if_splits)
qed

theorem deltas_shown_and_committed_witness:
  "idle (ChatApp Structured (Some ''sk-test'') True)
   \<and> trim ''como estas'' \<noteq> []
   \<and> stream_events [StreamOpened, StreamChunk (text_chunk ''Ho''), CorrectionsSettled 0 (text_reply ''{}''),
         StreamChunk (text_chunk ''la!'')]
       = StreamOpened # map StreamChunk [text_chunk ''Ho'', text_chunk ''la!'']
   \<and> textContent (messagesContainer (run Structured sample_host
         (Input ''como estas'' # Send #
            [StreamOpened, StreamChunk (text_chunk ''Ho''), CorrectionsSettled 0 (text_reply ''{}''),
             StreamChunk (text_chunk ''la!'')])
         (ChatApp Structured (Some ''sk-test'') True))
       ! Suc (length (messagesContainer (ChatApp Structured (Some ''sk-test'') True))))
       = ''Hola!''
   \<and> Send \<notin> set [StreamOpened, StreamChunk (text_chunk ''Ho''), StreamChunk (text_chunk ''la!''),
         StreamChunk (text_chunk '' Como estas?''), StreamDone]
   \<and> stream_events [StreamOpened, StreamChunk (text_chunk ''Ho''), StreamChunk (text_chunk ''la!''),
         StreamChunk (text_chunk '' Como estas?''), StreamDone]
       = reply_events (Completed [text_chunk ''Ho'', text_chunk ''la!'', text_chunk '' Como estas?''])
   \<and> messages (run Structured sample_host
         (Input ''como estas'' # Send #
            [StreamOpened, StreamChunk (text_chunk ''Ho''), StreamChunk (text_chunk ''la!''),
             StreamChunk (text_chunk '' Como estas?''), StreamDone])
         (ChatApp Structured (Some ''sk-test'') True))
       = [system_message, \<lparr>role = User, content = ''como estas''\<rparr>,
          \<lparr>role = Assistant, content = ''Hola! Como estas?''\<rparr>]"
proof -
  have i: "idle (ChatApp Structured (Some ''sk-test'') True)"
    by (simp add: ChatApp_with_key(1))
  have t: "trim ''como estas'' \<noteq> []" by (simp add: trim_def is_space_def)
  have p1: "stream_events [StreamOpened, StreamChunk (text_chunk ''Ho''), CorrectionsSettled 0 (text_reply ''{}''),
         StreamChunk (text_chunk ''la!'')]
       = StreamOpened # map StreamChunk [text_chunk ''Ho'', text_chunk ''la!'']"
    by (simp add: stream_events_def)
  have s2: "Send \<notin> set [StreamOpened, StreamChunk (text_chunk ''Ho''), StreamChunk (text_chunk ''la!''),
         StreamChunk (text_chunk '' Como estas?''), StreamDone]" by simp
  have p2: "stream_events [StreamOpened, StreamChunk (text_chunk ''Ho''), StreamChunk (text_chunk ''la!''),
         StreamChunk (text_chunk '' Como estas?''), StreamDone]
       = reply_events (Completed [text_chunk ''Ho'', text_chunk ''la!'', text_chunk '' Como estas?''])"
    by (simp add: stream_events_def)
  note th1 = deltas_shown_and_committed[OF i t, where v = Structured and h = sample_host
      and es = "[StreamOpened, StreamChunk (text_chunk ''Ho''), CorrectionsSettled 0 (text_reply ''{}''),
         StreamChunk (text_chunk ''la!'')]"
      and cs = "[text_chunk ''Ho'', text_chunk ''la!'']"]
  note th2 = deltas_shown_and_committed[OF i t, where v = Structured and h = sample_host
      and es = "[StreamOpened, StreamChunk (text_chunk ''Ho''), StreamChunk (text_chunk ''la!''),
         StreamChunk (text_chunk '' Como estas?''), StreamDone]"
      and cs = "[text_chunk ''Ho'', text_chunk ''la!'', text_chunk '' Como estas?'']"]
  from th1 p1 have A: "textContent (messagesContainer (run Structured sample_host
         (Input ''como estas'' # Send #
            [StreamOpened, StreamChunk (text_chunk ''Ho''), CorrectionsSettled 0 (text_reply ''{}''),
             StreamChunk (text_chunk ''la!'')])
         (ChatApp Structured (Some ''sk-test'') True))
       ! Suc (length (messagesContainer (ChatApp Structured (Some ''sk-test'') True))))
       = concat (map delta_of [text_chunk ''Ho'', text_chunk ''la!''])"
    by blast
  have A': "concat (map delta_of [text_chunk ''Ho'', text_chunk ''la!'']) = ''Hola!''"
    by (simp add: text_chunk_def)
  from th2 s2 p2 have B: "messages (run Structured sample_host
         (Input ''como estas'' # Send #
            [StreamOpened, StreamChunk (text_chunk ''Ho''), StreamChunk (text_chunk ''la!''),
             StreamChunk (text_chunk '' Como estas?''), StreamDone])
         (ChatApp Structured (Some ''sk-test'') True))
       = messages (ChatApp Structured (Some ''sk-test'') True)
         @ [\<lparr>role = User, content = trim ''como estas''\<rparr>,
            \<lparr>role = Assistant, content = concat (map delta_of
               [text_chunk ''Ho'', text_chunk ''la!'', text_chunk '' Como estas?''])\<rparr>]"
    by blast
  have B': "messages (ChatApp Structured (Some ''sk-test'') True)
         @ [\<lparr>role = User, content = trim ''como estas''\<rparr>,
            \<lparr>role = Assistant, content = concat (map delta_of
               [text_chunk ''Ho'', text_chunk ''la!'', text_chunk '' Como estas?''])\<rparr>]
       = [system_message, \<lparr>role = User, content = ''como estas''\<rparr>,
          \<lparr>role = Assistant, content = ''Hola! Como estas?''\<rparr>]"
    by (simp add: ChatApp_with_key(3) trim_def is_space_def text_chunk_def)
  from i t p1 s2 p2 A[unfolded A'] B[unfolded B'] show ?thesis by blast
qed

text \<open>
  C3. The claim holds in \<open>Notes\<close> and \<open>Structured\<close>, whose \<open>catch\<close> block only
  renders the error (lemma \<open>failed_turn_messages\<close>). In \<open>Plain\<close> the \<open>catch\<close> block
  shows the error with \<open>addMessage\<close>, which also pushes it to the history: after a stream
  that broke, the history holds an assistant message made from the failure.
\<close>

theorem plain_failure_reaches_history:
  "messages (run Plain sample_host
       [Input ''hola'', Send, StreamOpened, StreamChunk (text_chunk ''Ho''),
        StreamBroke (ErrorObj ''terminated'')]
       (ChatApp Plain (Some ''sk-test'') True))
   = [\<lparr>role = User, content = ''hola''\<rparr>,
      \<lparr>role = Assistant, content = ''Error: terminated''\<rparr>]"
  by (simp add: eval_defs)

text \<open>
  C4. As stated the claim fails: the result of the correction request is looked at only
  after the stream loop. Here the corrections arrive, with one item, while the reply is
  streamed: nothing is attached then; and when the stream then throws, nothing is
  attached at all.
\<close>

theorem corrections_wait_for_the_stream:
  \<open>promises (run Structured sample_host
       [Input ''yo es'', Send, StreamOpened, StreamChunk (text_chunk ''Muy''),
        CorrectionsSettled 0 (text_reply ''{"hasCorrections":true,"corrections":[{"type":"error","original":"yo es","suggestion":"yo soy","explanation":"ser"}]}'')]
       (ChatApp Structured (Some ''sk-test'') True))
     = [Resolved sample_correction]
   \<and> task (run Structured sample_host
       [Input ''yo es'', Send, StreamOpened, StreamChunk (text_chunk ''Muy''),
        CorrectionsSettled 0 (text_reply ''{"hasCorrections":true,"corrections":[{"type":"error","original":"yo es","suggestion":"yo soy","explanation":"ser"}]}'')]
       (ChatApp Structured (Some ''sk-test'') True))
     = Streaming \<lparr>correctionsPromise = Some 0, userMessageElement = 0, contentDiv = 1\<rparr> ''Muy''
   \<and> corrections (messagesContainer (run Structured sample_host
       [Input ''yo es'', Send, StreamOpened, StreamChunk (text_chunk ''Muy''),
        CorrectionsSettled 0 (text_reply ''{"hasCorrections":true,"corrections":[{"type":"error","original":"yo es","suggestion":"yo soy","explanation":"ser"}]}'')]
       (ChatApp Structured (Some ''sk-test'') True)) ! 0)
     = []
   \<and> corrections (messagesContainer (run Structured sample_host
       [Input ''yo es'', Send, StreamOpened, StreamChunk (text_chunk ''Muy''),
        CorrectionsSettled 0 (text_reply ''{"hasCorrections":true,"corrections":[{"type":"error","original":"yo es","suggestion":"yo soy","explanation":"ser"}]}''),
        StreamBroke (ErrorObj ''terminated'')]
       (ChatApp Structured (Some ''sk-test'') True)) ! 0)
     = []\<close>
  by (simp add: eval_defs sample_host_def sample_parse_def)

text \<open>
  C4, amended. In a turn of \<open>Notes\<close> or \<open>Structured\<close> that was accepted: as long as
  the reply is in flight (the streaming request is awaited, or the stream has yielded
  chunks and has not ended), nothing is attached to the element of the user's message,
  whatever the correction request has done. Once the stream has ended normally, what is
  attached is what \<open>addCorrectionsToMessage\<close> makes of the value that the correction
  request resolved with, wherever in the turn it resolved, before or after the end of the
  stream; until it resolves nothing is attached.
\<close>

theorem corrections_attached_after_stream:
  assumes "idle s" "trim inp \<noteq> []" "v \<noteq> Plain"
  shows "((stream_events es = [] \<or> stream_events es = StreamOpened # map StreamChunk cs) \<longrightarrow>
            isStreaming (run v h (Input inp # Send # es) s)
            \<and> corrections (messagesContainer (run v h (Input inp # Send # es) s)
                            ! length (messagesContainer s)) = [])
       \<and> (Send \<notin> set es \<longrightarrow> stream_events es = reply_events (Completed cs) \<longrightarrow>
            corrections (messagesContainer (run v h (Input inp # Send # es) s)
                           ! length (messagesContainer s))
              = (case resolved_with v h (length (promises s)) es of
                   None \<Rightarrow> []
                 | Some x \<Rightarrow> attached v x))"
proof (intro conjI impI)
  assume a: "stream_events es = [] \<or> stream_events es = StreamOpened # map StreamChunk cs"
  then show "isStreaming (run v h (Input inp # Send # es) s)"
    using awaiting_turn(2)[OF assms(1,2), of es v h] inflight_turn(2)[OF assms(1,2), of es cs v h]
    by blast
  from a show "corrections (messagesContainer (run v h (Input inp # Send # es) s)
                            ! length (messagesContainer s)) = []"
  proof
    assume "stream_events es = []"
    from awaiting_turn(3)[OF assms(1,2) this, of v h] show ?thesis by simp
  next
    assume "stream_events es = StreamOpened # map StreamChunk cs"
    from inflight_turn(4)[OF assms(1,2) this, of v h] show ?thesis by simp
  qed
next
  assume a: "Send \<notin> set es" "stream_events es = reply_events (Completed cs)"
  note td = turn_completed[OF assms(1,2) a, of v h]
  show "corrections (messagesContainer (run v h (Input inp # Send # es) s)
                           ! length (messagesContainer s))
              = (case resolved_with v h (length (promises s)) es of
                   None \<Rightarrow> []
                 | Some x \<Rightarrow> attached v x)"
    using td assms(3)
    by (auto simp add: turn_done_def shown_corrections split: option.splits)
qed

theorem corrections_attached_after_stream_witness:
  \<open>idle (ChatApp Structured (Some ''sk-test'') True) \<and> trim ''yo es'' \<noteq> [] \<and> Structured \<noteq> Plain
   \<and> (stream_events [StreamOpened, StreamChunk (text_chunk ''Muy''), CorrectionsSettled 0 (text_reply ''{"hasCorrections":true,"corrections":[{"type":"error","original":"yo es","suggestion":"yo soy","explanation":"ser"}]}'')] = []
        \<or> stream_events [StreamOpened, StreamChunk (text_chunk ''Muy''), CorrectionsSettled 0 (text_reply ''{"hasCorrections":true,"corrections":[{"type":"error","original":"yo es","suggestion":"yo soy","explanation":"ser"}]}'')] = StreamOpened # map StreamChunk [text_chunk ''Muy''])
   \<and> isStreaming (run Structured sample_host (Input ''yo es'' # Send # [StreamOpened, StreamChunk (text_chunk ''Muy''), CorrectionsSettled 0 (text_reply ''{"hasCorrections":true,"corrections":[{"type":"error","original":"yo es","suggestion":"yo soy","explanation":"ser"}]}'')]) (ChatApp Structured (Some ''sk-test'') True))
   \<and> corrections (messagesContainer (run Structured sample_host (Input ''yo es'' # Send # [StreamOpened, StreamChunk (text_chunk ''Muy''), CorrectionsSettled 0 (text_reply ''{"hasCorrections":true,"corrections":[{"type":"error","original":"yo es","suggestion":"yo soy","explanation":"ser"}]}'')]) (ChatApp Structured (Some ''sk-test'') True)) ! length (messagesContainer (ChatApp Structured (Some ''sk-test'') True))) = []
   \<and> Send \<notin> set [StreamOpened, CorrectionsSettled 0 (text_reply ''{"hasCorrections":true,"corrections":[{"type":"error","original":"yo es","suggestion":"yo soy","explanation":"ser"}]}''), StreamChunk (text_chunk ''Muy''), StreamDone]
   \<and> stream_events [StreamOpened, CorrectionsSettled 0 (text_reply ''{"hasCorrections":true,"corrections":[{"type":"error","original":"yo es","suggestion":"yo soy","explanation":"ser"}]}''), StreamChunk (text_chunk ''Muy''), StreamDone] = reply_events (Completed [text_chunk ''Muy''])
   \<and> corrections (messagesContainer (run Structured sample_host (Input ''yo es'' # Send # [StreamOpened, CorrectionsSettled 0 (text_reply ''{"hasCorrections":true,"corrections":[{"type":"error","original":"yo es","suggestion":"yo soy","explanation":"ser"}]}''), StreamChunk (text_chunk ''Muy''), StreamDone]) (ChatApp Structured (Some ''sk-test'') True)) ! length (messagesContainer (ChatApp Structured (Some ''sk-test'') True))) = [''Error: yo soy\<newline>'' @ arrow @ '' ser'']
   \<and> Send \<notin> set [StreamOpened, StreamChunk (text_chunk ''Muy''), StreamDone, CorrectionsSettled 0 (text_reply ''{"hasCorrections":true,"corrections":[{"type":"error","original":"yo es","suggestion":"yo soy","explanation":"ser"}]}'')]
   \<and> stream_events [StreamOpened, StreamChunk (text_chunk ''Muy''), StreamDone, CorrectionsSettled 0 (text_reply ''{"hasCorrections":true,"corrections":[{"type":"error","original":"yo es","suggestion":"yo soy","explanation":"ser"}]}'')] = reply_events (Completed [text_chunk ''Muy''])
   \<and> corrections (messagesContainer (run Structured sample_host (Input ''yo es'' # Send # [StreamOpened, StreamChunk (text_chunk ''Muy''), StreamDone, CorrectionsSettled 0 (text_reply ''{"hasCorrections":true,"corrections":[{"type":"error","original":"yo es","suggestion":"yo soy","explanation":"ser"}]}'')]) (ChatApp Structured (Some ''sk-test'') True)) ! length (messagesContainer (ChatApp Structured (Some ''sk-test'') True))) = [''Error: yo soy\<newline>'' @ arrow @ '' ser'']\<close>
proof -
  have i: "idle (ChatApp Structured (Some ''sk-test'') True)" by (simp add: ChatApp_with_key(1))
  have t: "trim ''yo es'' \<noteq> []" by (simp add: trim_def is_space_def)
  have v: "Structured \<noteq> Plain" by simp
  have p1: \<open>stream_events [StreamOpened, StreamChunk (text_chunk ''Muy''), CorrectionsSettled 0 (text_reply ''{"hasCorrections":true,"corrections":[{"type":"error","original":"yo es","suggestion":"yo soy","explanation":"ser"}]}'')] = []
        \<or> stream_events [StreamOpened, StreamChunk (text_chunk ''Muy''), CorrectionsSettled 0 (text_reply ''{"hasCorrections":true,"corrections":[{"type":"error","original":"yo es","suggestion":"yo soy","explanation":"ser"}]}'')] = StreamOpened # map StreamChunk [text_chunk ''Muy'']\<close>
    by (simp add: stream_events_def)
  have s2: \<open>Send \<notin> set [StreamOpened, CorrectionsSettled 0 (text_reply ''{"hasCorrections":true,"corrections":[{"type":"error","original":"yo es","suggestion":"yo soy","explanation":"ser"}]}''), StreamChunk (text_chunk ''Muy''), StreamDone]\<close> by simp
  have p2: \<open>stream_events [StreamOpened, CorrectionsSettled 0 (text_reply ''{"hasCorrections":true,"corrections":[{"type":"error","original":"yo es","suggestion":"yo soy","explanation":"ser"}]}''), StreamChunk (text_chunk ''Muy''), StreamDone] = reply_events (Completed [text_chunk ''Muy''])\<close>
    by (simp add: stream_events_def)
  have s3: \<open>Send \<notin> set [StreamOpened, StreamChunk (text_chunk ''Muy''), StreamDone, CorrectionsSettled 0 (text_reply ''{"hasCorrections":true,"corrections":[{"type":"error","original":"yo es","suggestion":"yo soy","explanation":"ser"}]}'')]\<close> by simp
  have p3: \<open>stream_events [StreamOpened, StreamChunk (text_chunk ''Muy''), StreamDone, CorrectionsSettled 0 (text_reply ''{"hasCorrections":true,"corrections":[{"type":"error","original":"yo es","suggestion":"yo soy","explanation":"ser"}]}'')] = reply_events (Completed [text_chunk ''Muy''])\<close>
    by (simp add: stream_events_def)
  have at: "attached Structured sample_correction = [''Error: yo soy\<newline>'' @ arrow @ '' ser'']"
    by (simp add: attached_def corrections_for_def correctionsText_def sample_correction_def
        format_correction_def)
  have r2: \<open>(case resolved_with Structured sample_host (length (promises (ChatApp Structured (Some ''sk-test'') True))) [StreamOpened, CorrectionsSettled 0 (text_reply ''{"hasCorrections":true,"corrections":[{"type":"error","original":"yo es","suggestion":"yo soy","explanation":"ser"}]}''), StreamChunk (text_chunk ''Muy''), StreamDone] of
               None \<Rightarrow> [] | Some x \<Rightarrow> attached Structured x) = [''Error: yo soy\<newline>'' @ arrow @ '' ser'']\<close>
    by (simp add: ChatApp_with_key(2) getCorrections_value_def getCorrections_try_def text_reply_def
        sample_host_def sample_parse_def at)
  have r3: \<open>(case resolved_with Structured sample_host (length (promises (ChatApp Structured (Some ''sk-test'') True))) [StreamOpened, StreamChunk (text_chunk ''Muy''), StreamDone, CorrectionsSettled 0 (text_reply ''{"hasCorrections":true,"corrections":[{"type":"error","original":"yo es","suggestion":"yo soy","explanation":"ser"}]}'')] of
               None \<Rightarrow> [] | Some x \<Rightarrow> attached Structured x) = [''Error: yo soy\<newline>'' @ arrow @ '' ser'']\<close>
    by (simp add: ChatApp_with_key(2) getCorrections_value_def getCorrections_try_def text_reply_def
        sample_host_def sample_parse_def at)
  note th1 = corrections_attached_after_stream[OF i t v, where h = sample_host
      and es = \<open>[StreamOpened, StreamChunk (text_chunk ''Muy''), CorrectionsSettled 0 (text_reply ''{"hasCorrections":true,"corrections":[{"type":"error","original":"yo es","suggestion":"yo soy","explanation":"ser"}]}'')]\<close> and cs = "[text_chunk ''Muy'']"]
  note th2 = corrections_attached_after_stream[OF i t v, where h = sample_host
      and es = \<open>[StreamOpened, CorrectionsSettled 0 (text_reply ''{"hasCorrections":true,"corrections":[{"type":"error","original":"yo es","suggestion":"yo soy","explanation":"ser"}]}''), StreamChunk (text_chunk ''Muy''), StreamDone]\<close> and cs = "[text_chunk ''Muy'']"]
  note th3 = corrections_attached_after_stream[OF i t v, where h = sample_host
      and es = \<open>[StreamOpened, StreamChunk (text_chunk ''Muy''), StreamDone, CorrectionsSettled 0 (text_reply ''{"hasCorrections":true,"corrections":[{"type":"error","original":"yo es","suggestion":"yo soy","explanation":"ser"}]}'')]\<close> and cs = "[text_chunk ''Muy'']"]
  from th1 p1 have A: \<open>isStreaming (run Structured sample_host (Input ''yo es'' # Send # [StreamOpened, StreamChunk (text_chunk ''Muy''), CorrectionsSettled 0 (text_reply ''{"hasCorrections":true,"corrections":[{"type":"error","original":"yo es","suggestion":"yo soy","explanation":"ser"}]}'')]) (ChatApp Structured (Some ''sk-test'') True))\<close>
    \<open>corrections (messagesContainer (run Structured sample_host (Input ''yo es'' # Send # [StreamOpened, StreamChunk (text_chunk ''Muy''), CorrectionsSettled 0 (text_reply ''{"hasCorrections":true,"corrections":[{"type":"error","original":"yo es","suggestion":"yo soy","explanation":"ser"}]}'')]) (ChatApp Structured (Some ''sk-test'') True)) ! length (messagesContainer (ChatApp Structured (Some ''sk-test'') True))) = []\<close>
    by blast+
  from th2 s2 p2 have B: \<open>corrections (messagesContainer (run Structured sample_host (Input ''yo es'' # Send # [StreamOpened, CorrectionsSettled 0 (text_reply ''{"hasCorrections":true,"corrections":[{"type":"error","original":"yo es","suggestion":"yo soy","explanation":"ser"}]}''), StreamChunk (text_chunk ''Muy''), StreamDone]) (ChatApp Structured (Some ''sk-test'') True)) ! length (messagesContainer (ChatApp Structured (Some ''sk-test'') True)))
     = (case resolved_with Structured sample_host (length (promises (ChatApp Structured (Some ''sk-test'') True))) [StreamOpened, CorrectionsSettled 0 (text_reply ''{"hasCorrections":true,"corrections":[{"type":"error","original":"yo es","suggestion":"yo soy","explanation":"ser"}]}''), StreamChunk (text_chunk ''Muy''), StreamDone] of
               None \<Rightarrow> [] | Some x \<Rightarrow> attached Structured x)\<close>
    by blast
  from th3 s3 p3 have C: \<open>corrections (messagesContainer (run Structured sample_host (Input ''yo es'' # Send # [StreamOpened, StreamChunk (text_chunk ''Muy''), StreamDone, CorrectionsSettled 0 (text_reply ''{"hasCorrections":true,"corrections":[{"type":"error","original":"yo es","suggestion":"yo soy","explanation":"ser"}]}'')]) (ChatApp Structured (Some ''sk-test'') True)) ! length (messagesContainer (ChatApp Structured (Some ''sk-test'') True)))
     = (case resolved_with Structured sample_host (length (promises (ChatApp Structured (Some ''sk-test'') True))) [StreamOpened, StreamChunk (text_chunk ''Muy''), StreamDone, CorrectionsSettled 0 (text_reply ''{"hasCorrections":true,"corrections":[{"type":"error","original":"yo es","suggestion":"yo soy","explanation":"ser"}]}'')] of
               None \<Rightarrow> [] | Some x \<Rightarrow> attached Structured x)\<close>
    by blast
  from i t v p1 A s2 p2 B[unfolded r2] s3 p3 C[unfolded r3] show ?thesis by blast
qed

text \<open>
  C5. As stated the claim fails: when the stream has ended and the correction request has
  not settled, \<open>sendMessage\<close> is suspended at \<open>await correctionsPromise\<close>, before its
  \<open>finally\<close> block: \<open>isStreaming\<close> is still set, and the next submission is rejected.
\<close>

theorem busy_waits_for_corrections:
  "isStreaming (run Structured sample_host
       [Input ''hola'', Send, StreamOpened, StreamChunk (text_chunk ''Hola''), StreamDone]
       (ChatApp Structured (Some ''sk-test'') True))
   \<and> run Structured sample_host
       [Input ''hola'', Send, StreamOpened, StreamChunk (text_chunk ''Hola''), StreamDone,
        Input ''otra'', Send]
       (ChatApp Structured (Some ''sk-test'') True)
     = run Structured sample_host
       [Input ''hola'', Send, StreamOpened, StreamChunk (text_chunk ''Hola''), StreamDone,
        Input ''otra'']
       (ChatApp Structured (Some ''sk-test'') True)"
  by (simp add: eval_defs)

text \<open>
  C5, amended. In a turn that was accepted: when the reply path fails (the request is
  rejected or the stream throws), \<open>isStreaming\<close> is released at once, whether or not the
  correction request has settled; when the stream ends normally, \<open>isStreaming\<close> is
  released only once the correction request of the turn has settled too (in \<open>Plain\<close>,
  which has no corrections, at the end of the stream).
\<close>

theorem busy_release:
  assumes "idle s" "trim inp \<noteq> []" "Send \<notin> set es" "stream_events es = reply_events rp"
  shows "isStreaming (run v h (Input inp # Send # es) s)
         = (\<not> failed rp \<and> v \<noteq> Plain \<and> \<not> settles (length (promises s)) es)"
proof (cases rp)
  case (Completed cs)
  from turn_completed[OF assms(1-3), of cs v h] assms(4) Completed
    resolved_with_settles[of v h "length (promises s)" es]
  show ?thesis
    by (auto simp add: turn_done_def split: option.splits if_splits)
next
  case (Refused e)
  from turn_fails[OF assms(1-3), of e "[]" v h] assms(4) Refused show ?thesis
    by (simp add: turn_failed_def)
next
  case (Broke cs e)
  from turn_fails[OF assms(1-3), of e cs v h] assms(4) Broke show ?thesis
    by (simp add: turn_failed_def)
qed

theorem busy_release_witness:
  "idle (ChatApp Structured (Some ''sk-test'') True)
   \<and> trim ''hola'' \<noteq> []
   \<and> Send \<notin> set [StreamOpened, StreamBroke (ErrorObj ''terminated'')]
   \<and> stream_events [StreamOpened, StreamBroke (ErrorObj ''terminated'')]
       = reply_events (Broke [] (ErrorObj ''terminated''))
   \<and> \<not> isStreaming (run Structured sample_host
         (Input ''hola'' # Send # [StreamOpened, StreamBroke (ErrorObj ''terminated'')])
         (ChatApp Structured (Some ''sk-test'') True))
   \<and> Send \<notin> set [StreamOpened, StreamDone, CorrectionsSettled 0 (text_reply ''{}'')]
   \<and> stream_events [StreamOpened, StreamDone, CorrectionsSettled 0 (text_reply ''{}'')]
       = reply_events (Completed [])
   \<and> \<not> isStreaming (run Structured sample_host
         (Input ''hola'' # Send # [StreamOpened, StreamDone, CorrectionsSettled 0 (text_reply ''{}'')])
         (ChatApp Structured (Some ''sk-test'') True))"
proof -
  have i: "idle (ChatApp Structured (Some ''sk-test'') True)"
    by (simp add: ChatApp_with_key(1))
  have t: "trim ''hola'' \<noteq> []" by (simp add: trim_def is_space_def)
  have s1: "Send \<notin> set [StreamOpened, StreamBroke (ErrorObj ''terminated'')]" by simp
  have p1: "stream_events [StreamOpened, StreamBroke (ErrorObj ''terminated'')]
       = reply_events (Broke [] (ErrorObj ''terminated''))"
    by (simp add: stream_events_def)
  have s2: "Send \<notin> set [StreamOpened, StreamDone, CorrectionsSettled 0 (text_reply ''{}'')]" by simp
  have p2: "stream_events [StreamOpened, StreamDone, CorrectionsSettled 0 (text_reply ''{}'')]
       = reply_events (Completed [])"
    by (simp add: stream_events_def)
  have r1: "(\<not> failed (Broke [] (ErrorObj ''terminated'')) \<and> Structured \<noteq> Plain
       \<and> \<not> settles (length (promises (ChatApp Structured (Some ''sk-test'') True)))
              [StreamOpened, StreamBroke (ErrorObj ''terminated'')]) = False"
    by simp
  have r2: "(\<not> failed (Completed []) \<and> Structured \<noteq> Plain
       \<and> \<not> settles (length (promises (ChatApp Structured (Some ''sk-test'') True)))
              [StreamOpened, StreamDone, CorrectionsSettled 0 (text_reply ''{}'')]) = False"
    by (simp add: settles_def ChatApp_with_key(2))
  note A = busy_release[OF i t s1 p1, of Structured sample_host, unfolded r1]
  note B = busy_release[OF i t s2 p2, of Structured sample_host, unfolded r2]
  from i t s1 p1 s2 p2 A B show ?thesis by blast
qed

text \<open>
  C6. As stated the claim fails: \<open>getCorrections\<close> of \<open>Structured\<close> casts what
  \<open>JSON.parse\<close> returns and validates nothing. Content that is JSON and does not match
  the schema is returned, not \<open>null\<close>; here a response without \<open>corrections\<close> makes
  \<open>addCorrectionsToMessage\<close> throw a TypeError, which the \<open>catch\<close> block of
  \<open>sendMessage\<close> renders in the transcript.
\<close>

theorem unvalidated_corrections_are_returned:
  \<open>JSON_parse sample_host ''{"hasCorrections":true}'' = Some (JObj [(''hasCorrections'', JBool True)])
   \<and> \<not> matches_schema (JObj [(''hasCorrections'', JBool True)])
   \<and> fst (getCorrections_resume Structured sample_host (text_reply ''{"hasCorrections":true}'') (ChatApp Structured (Some ''sk-test'') True))
       = JObj [(''hasCorrections'', JBool True)]
   \<and> messagesContainer (run Structured sample_host [Input ''hola'', Send, StreamOpened, StreamChunk (text_chunk ''Hola''), StreamDone, CorrectionsSettled 0 (text_reply ''{"hasCorrections":true}'')] (ChatApp Structured (Some ''sk-test'') True))
       = [\<lparr>el_role = User, textContent = ''hola'', corrections = []\<rparr>,
          \<lparr>el_role = Assistant, textContent = ''Hola'', corrections = []\<rparr>,
          \<lparr>el_role = Assistant,
           textContent = ''Error: Cannot read properties of undefined (reading 'length')'',
           corrections = []\<rparr>]\<close>
  by (simp add: eval_defs sample_host_def sample_parse_def sample_message_def correctionsText_def)

text \<open>
  C6, amended. When the correction request is rejected, or its response has no content
  or empty content, or (in \<open>Structured\<close>) \<open>JSON.parse\<close> throws on the content,
  \<open>getCorrections\<close> returns \<open>null\<close>. When that happens the transcript, the history, the
  alerts, the timers and the settings dialog are left as they are; and the value of
  \<open>isStreaming\<close> after the correction request has settled does not depend on how it
  settled. In a turn whose reply completed and whose corrections are \<open>null\<close>, the
  transcript has gained the user's element, with nothing attached, and the assistant's
  element, and nothing else, and \<open>isStreaming\<close> is released. Content that
  \<open>JSON.parse\<close> accepts is returned whatever its shape.
\<close>

theorem null_corrections_are_silent:
  assumes "unusable v h r"
  shows "fst (getCorrections_resume v h r s) = JNull
       \<and> messagesContainer (step v h (CorrectionsSettled i r) s) = messagesContainer s
       \<and> messages (step v h (CorrectionsSettled i r) s) = messages s
       \<and> alerts (step v h (CorrectionsSettled i r) s) = alerts s
       \<and> timers (step v h (CorrectionsSettled i r) s) = timers s
       \<and> settingsModal_hidden (step v h (CorrectionsSettled i r) s) = settingsModal_hidden s
       \<and> isStreaming (step v h (CorrectionsSettled i r) s)
           = isStreaming (step v h (CorrectionsSettled i r') s)
       \<and> (idle s \<longrightarrow> trim inp \<noteq> [] \<longrightarrow> v \<noteq> Plain \<longrightarrow> Send \<notin> set (es1 @ es2) \<longrightarrow>
            \<not> settles (length (promises s)) es1 \<longrightarrow>
            stream_events (es1 @ es2) = reply_events (Completed cs) \<longrightarrow>
            messagesContainer
              (run v h (Input inp # Send # es1 @ CorrectionsSettled (length (promises s)) r # es2) s)
              = messagesContainer s
                @ [\<lparr>el_role = User, textContent = trim inp, corrections = []\<rparr>,
                   \<lparr>el_role = Assistant, textContent = concat (map delta_of cs), corrections = []\<rparr>]
            \<and> \<not> isStreaming
              (run v h (Input inp # Send # es1 @ CorrectionsSettled (length (promises s)) r # es2) s))"
proof -
  note n = unusable_value[OF assms]
  have turn: "messagesContainer
              (run v h (Input inp # Send # es1 @ CorrectionsSettled (length (promises s)) r # es2) s)
              = messagesContainer s
                @ [\<lparr>el_role = User, textContent = trim inp, corrections = []\<rparr>,
                   \<lparr>el_role = Assistant, textContent = concat (map delta_of cs), corrections = []\<rparr>]
            \<and> \<not> isStreaming
              (run v h (Input inp # Send # es1 @ CorrectionsSettled (length (promises s)) r # es2) s)"
    if a: "idle s" "trim inp \<noteq> []" "v \<noteq> Plain" "Send \<notin> set (es1 @ es2)"
      "\<not> settles (length (promises s)) es1"
      "stream_events (es1 @ es2) = reply_events (Completed cs)"
  proof -
    let ?es = "es1 @ CorrectionsSettled (length (promises s)) r # es2"
    from a(4) have s: "Send \<notin> set ?es" by simp
    from a(6) have p: "stream_events ?es = reply_events (Completed cs)"
      by (simp add: stream_events_def)
    from turn_completed[OF a(1,2) s p, of v h] a(3) resolved_with_first[OF a(5), of v h r es2] n
    show ?thesis
      by (simp add: turn_done_def with_text_new_elements)
  qed
  show ?thesis
    using n on_corrections_null[OF n, of i s] on_corrections_busy[of v h i r s r'] turn
    by simp
qed

theorem null_corrections_are_silent_witness:
  "unusable Structured sample_host (text_reply ''Perfect!'')
   \<and> fst (getCorrections_resume Structured sample_host (text_reply ''Perfect!'') (run Structured sample_host [Input ''hola'', Send, StreamOpened, StreamChunk (text_chunk ''Hola''), StreamDone] (ChatApp Structured (Some ''sk-test'') True))) = JNull
   \<and> isStreaming (run Structured sample_host [Input ''hola'', Send, StreamOpened, StreamChunk (text_chunk ''Hola''), StreamDone] (ChatApp Structured (Some ''sk-test'') True))
   \<and> messagesContainer (step Structured sample_host (CorrectionsSettled 0 (text_reply ''Perfect!'')) (run Structured sample_host [Input ''hola'', Send, StreamOpened, StreamChunk (text_chunk ''Hola''), StreamDone] (ChatApp Structured (Some ''sk-test'') True)))
       = messagesContainer (run Structured sample_host [Input ''hola'', Send, StreamOpened, StreamChunk (text_chunk ''Hola''), StreamDone] (ChatApp Structured (Some ''sk-test'') True))
   \<and> idle (ChatApp Structured (Some ''sk-test'') True) \<and> trim ''hola'' \<noteq> [] \<and> Structured \<noteq> Plain
   \<and> Send \<notin> set ([StreamOpened] @ [StreamChunk (text_chunk ''Hola''), StreamDone])
   \<and> \<not> settles (length (promises (ChatApp Structured (Some ''sk-test'') True))) [StreamOpened]
   \<and> stream_events ([StreamOpened] @ [StreamChunk (text_chunk ''Hola''), StreamDone])
       = reply_events (Completed [text_chunk ''Hola''])
   \<and> messagesContainer (run Structured sample_host (Input ''hola'' # Send # [StreamOpened] @ CorrectionsSettled (length (promises (ChatApp Structured (Some ''sk-test'') True))) (text_reply ''Perfect!'') # [StreamChunk (text_chunk ''Hola''), StreamDone]) (ChatApp Structured (Some ''sk-test'') True))
       = [\<lparr>el_role = User, textContent = ''hola'', corrections = []\<rparr>,
          \<lparr>el_role = Assistant, textContent = ''Hola'', corrections = []\<rparr>]
   \<and> \<not> isStreaming (run Structured sample_host (Input ''hola'' # Send # [StreamOpened] @ CorrectionsSettled (length (promises (ChatApp Structured (Some ''sk-test'') True))) (text_reply ''Perfect!'') # [StreamChunk (text_chunk ''Hola''), StreamDone]) (ChatApp Structured (Some ''sk-test'') True))"
proof -
  have u: "unusable Structured sample_host (text_reply ''Perfect!'')"
    by (simp add: unusable_def text_reply_def sample_host_def sample_parse_def)
  have b: "isStreaming (run Structured sample_host [Input ''hola'', Send, StreamOpened, StreamChunk (text_chunk ''Hola''), StreamDone] (ChatApp Structured (Some ''sk-test'') True))" by (simp add: eval_defs)
  have i: "idle (ChatApp Structured (Some ''sk-test'') True)" by (simp add: ChatApp_with_key(1))
  have t: "trim ''hola'' \<noteq> []" by (simp add: trim_def is_space_def)
  have v: "Structured \<noteq> Plain" by simp
  have sn: "Send \<notin> set ([StreamOpened] @ [StreamChunk (text_chunk ''Hola''), StreamDone])" by simp
  have ns: "\<not> settles (length (promises (ChatApp Structured (Some ''sk-test'') True))) [StreamOpened]" by (simp add: settles_def)
  have p: "stream_events ([StreamOpened] @ [StreamChunk (text_chunk ''Hola''), StreamDone])
       = reply_events (Completed [text_chunk ''Hola''])"
    by (simp add: stream_events_def)
  note th1 = null_corrections_are_silent[OF u, where s = "run Structured sample_host [Input ''hola'', Send, StreamOpened, StreamChunk (text_chunk ''Hola''), StreamDone] (ChatApp Structured (Some ''sk-test'') True)" and i = 0]
  note th2 = null_corrections_are_silent[OF u, where s = "ChatApp Structured (Some ''sk-test'') True" and inp = "''hola''"
      and ?es1.0 = "[StreamOpened]" and ?es2.0 = "[StreamChunk (text_chunk ''Hola''), StreamDone]"
      and cs = "[text_chunk ''Hola'']"]
  from th1 have A: "fst (getCorrections_resume Structured sample_host (text_reply ''Perfect!'') (run Structured sample_host [Input ''hola'', Send, StreamOpened, StreamChunk (text_chunk ''Hola''), StreamDone] (ChatApp Structured (Some ''sk-test'') True))) = JNull"
    "messagesContainer (step Structured sample_host (CorrectionsSettled 0 (text_reply ''Perfect!'')) (run Structured sample_host [Input ''hola'', Send, StreamOpened, StreamChunk (text_chunk ''Hola''), StreamDone] (ChatApp Structured (Some ''sk-test'') True)))
       = messagesContainer (run Structured sample_host [Input ''hola'', Send, StreamOpened, StreamChunk (text_chunk ''Hola''), StreamDone] (ChatApp Structured (Some ''sk-test'') True))"
    by blast+
  from th2 i t v sn ns p have B: "messagesContainer (run Structured sample_host (Input ''hola'' # Send # [StreamOpened] @ CorrectionsSettled (length (promises (ChatApp Structured (Some ''sk-test'') True))) (text_reply ''Perfect!'') # [StreamChunk (text_chunk ''Hola''), StreamDone]) (ChatApp Structured (Some ''sk-test'') True))
       = messagesContainer (ChatApp Structured (Some ''sk-test'') True)
         @ [\<lparr>el_role = User, textContent = trim ''hola'', corrections = []\<rparr>,
            \<lparr>el_role = Assistant, textContent = concat (map delta_of [text_chunk ''Hola'']),
             corrections = []\<rparr>]"
    "\<not> isStreaming (run Structured sample_host (Input ''hola'' # Send # [StreamOpened] @ CorrectionsSettled (length (promises (ChatApp Structured (Some ''sk-test'') True))) (text_reply ''Perfect!'') # [StreamChunk (text_chunk ''Hola''), StreamDone]) (ChatApp Structured (Some ''sk-test'') True))"
    by blast+
  have B': "messagesContainer (ChatApp Structured (Some ''sk-test'') True)
         @ [\<lparr>el_role = User, textContent = trim ''hola'', corrections = []\<rparr>,
            \<lparr>el_role = Assistant, textContent = concat (map delta_of [text_chunk ''Hola'']),
             corrections = []\<rparr>]
       = [\<lparr>el_role = User, textContent = ''hola'', corrections = []\<rparr>,
          \<lparr>el_role = Assistant, textContent = ''Hola'', corrections = []\<rparr>]"
    by (simp add: ChatApp_with_key(4) trim_def is_space_def text_chunk_def)
  from u A b i t v sn ns p B(1)[unfolded B'] B(2) show ?thesis by blast
qed

text \<open>
  C7. As stated the claim fails for \<open>getCorrections\<close>: with no client it does not signal
  an error, it returns a promise resolved with \<open>null\<close>, the value it also returns when
  the provider sends no content; nothing is alerted and nothing is logged.
\<close>

theorem getCorrections_without_key_is_null:
  "promises (getCorrections ''hola'' (ChatApp Structured None True)) = [Resolved JNull]
   \<and> alerts (getCorrections ''hola'' (ChatApp Structured None True)) = []
   \<and> console (getCorrections ''hola'' (ChatApp Structured None True)) = []
   \<and> getCorrections_value Structured sample_host (Fulfilled (Completion [])) = JNull"
  by (simp add: eval_defs getCorrections_value_def)

text \<open>
  C7, amended. While no credential is configured, \<open>sendMessage\<close> only alerts and opens
  the settings: it issues no request and leaves the history, the promises and the
  suspended call as they are; \<open>getCorrections\<close> issues no request and returns a promise
  resolved with \<open>null\<close>. There is no streaming operation apart from \<open>sendMessage\<close>.
  From a start with no stored key, no request is ever issued and the history never
  changes as long as no key is saved.
\<close>

theorem no_request_without_key:
  "(openai s = None \<longrightarrow>
      sendMessage v s
        = showSettings (s\<lparr>alerts := alerts s @ [''Please set your API key in settings'']\<rparr>)
      \<and> requests (sendMessage v s) = requests s
      \<and> messages (sendMessage v s) = messages s
      \<and> promises (sendMessage v s) = promises s
      \<and> task (sendMessage v s) = task s
      \<and> getCorrections userMessage s = s\<lparr>promises := promises s @ [Resolved JNull]\<rparr>
      \<and> requests (getCorrections userMessage s) = requests s)
   \<and> ((\<forall>k. SaveKey k \<notin> set es) \<longrightarrow>
      requests (run v h es (ChatApp v None hidden)) = []
      \<and> messages (run v h es (ChatApp v None hidden)) = messages (ChatApp v None hidden))"
proof (intro conjI impI)
  assume a: "\<forall>k. SaveKey k \<notin> set es"
  from no_key_run[OF ChatApp_without_key(1-3) a, where v1 = v and hidden1 = hidden and v = v and h = h]
  show "requests (run v h es (ChatApp v None hidden)) = []"
    and "messages (run v h es (ChatApp v None hidden)) = messages (ChatApp v None hidden)"
    by (simp_all add: ChatApp_without_key)
qed (simp_all add: sendMessage_def getCorrections_def showSettings_def)

theorem no_request_without_key_witness:
  "openai (ChatApp Structured None True) = None
   \<and> requests (sendMessage Structured ((ChatApp Structured None True)\<lparr>userInput := ''hola''\<rparr>)) = []
   \<and> messages (sendMessage Structured ((ChatApp Structured None True)\<lparr>userInput := ''hola''\<rparr>))
        = [system_message]
   \<and> (\<forall>k. SaveKey k \<notin> set [Input ''hola'', Send, CloseSettings, Send])
   \<and> requests (run Structured sample_host [Input ''hola'', Send, CloseSettings, Send]
         (ChatApp Structured None True)) = []
   \<and> messages (run Structured sample_host [Input ''hola'', Send, CloseSettings, Send]
         (ChatApp Structured None True)) = [system_message]"
proof -
  have o: "openai (ChatApp Structured None True) = None" by (simp add: ChatApp_without_key)
  have o': "openai ((ChatApp Structured None True)\<lparr>userInput := ''hola''\<rparr>) = None"
    by (simp add: ChatApp_without_key)
  have n: "\<forall>k. SaveKey k \<notin> set [Input ''hola'', Send, CloseSettings, Send]" by simp
  have m: "messages (ChatApp Structured None True) = [system_message]"
    by (simp add: eval_defs)
  have r: "requests ((ChatApp Structured None True)\<lparr>userInput := ''hola''\<rparr>) = []"
    "messages ((ChatApp Structured None True)\<lparr>userInput := ''hola''\<rparr>) = [system_message]"
    by (simp_all add: ChatApp_without_key m)
  note th1 = no_request_without_key[where s = "(ChatApp Structured None True)\<lparr>userInput := ''hola''\<rparr>"
      and v = Structured and h = sample_host and hidden = True
      and es = "[Input ''hola'', Send, CloseSettings, Send]"]
  from th1 o' have A: "requests (sendMessage Structured ((ChatApp Structured None True)\<lparr>userInput := ''hola''\<rparr>))
        = requests ((ChatApp Structured None True)\<lparr>userInput := ''hola''\<rparr>)"
    "messages (sendMessage Structured ((ChatApp Structured None True)\<lparr>userInput := ''hola''\<rparr>))
        = messages ((ChatApp Structured None True)\<lparr>userInput := ''hola''\<rparr>)"
    by blast+
  from th1 n have B: "requests (run Structured sample_host [Input ''hola'', Send, CloseSettings, Send]
         (ChatApp Structured None True)) = []"
     "messages (run Structured sample_host [Input ''hola'', Send, CloseSettings, Send]
         (ChatApp Structured None True)) = messages (ChatApp Structured None True)"
    by blast+
  from o n A[unfolded r] B[unfolded m] show ?thesis by blast
qed

text \<open>
  C8. In every state that the application can reach in which a turn is in flight
  (\<open>isStreaming\<close>), a call of \<open>sendMessage\<close> changes nothing at all: no message, no
  request, no promise, and the suspended call is as it was.
\<close>

theorem send_rejected_while_busy:
  assumes "isStreaming (run v h es (ChatApp v stored hidden))"
  shows "step v h Send (run v h es (ChatApp v stored hidden)) = run v h es (ChatApp v stored hidden)"
proof -
  from run_busy_inv[of "ChatApp v stored hidden" v h es] ChatApp_not_streaming assms
  obtain k where "openai (run v h es (ChatApp v stored hidden)) = Some k" by auto
  with assms show ?thesis by (simp add: sendMessage_def)
qed

theorem send_rejected_while_busy_witness:
  "isStreaming (run Structured sample_host [Input ''hola'', Send, StreamOpened, Input ''otra'']
                  (ChatApp Structured (Some ''sk-test'') True))
   \<and> userInput (run Structured sample_host [Input ''hola'', Send, StreamOpened, Input ''otra'']
                  (ChatApp Structured (Some ''sk-test'') True)) = ''otra''
   \<and> step Structured sample_host Send
        (run Structured sample_host [Input ''hola'', Send, StreamOpened, Input ''otra'']
           (ChatApp Structured (Some ''sk-test'') True))
      = run Structured sample_host [Input ''hola'', Send, StreamOpened, Input ''otra'']
           (ChatApp Structured (Some ''sk-test'') True)"
proof -
  have b: "isStreaming (run Structured sample_host [Input ''hola'', Send, StreamOpened, Input ''otra'']
                  (ChatApp Structured (Some ''sk-test'') True))"
    by (simp add: eval_defs)
  have u: "userInput (run Structured sample_host [Input ''hola'', Send, StreamOpened, Input ''otra'']
                  (ChatApp Structured (Some ''sk-test'') True)) = ''otra''"
    by (simp add: eval_defs)
  from b u send_rejected_while_busy[OF b] show ?thesis by blast
qed

text \<open>
  C9. When the streaming request is rejected or the stream throws, an assistant element
  with \<open>Error: \<close> and the failure message is appended to the transcript; a timer of 1000
  milliseconds that calls \<open>showSettings\<close> is set if and only if the failure message
  contains \<open>401\<close> or \<open>API key\<close>; the settings dialog itself is left as it was, and is
  shown when a pending timer fires.
\<close>

theorem reply_failure_is_rendered:
  assumes "task s = AwaitStream t \<and> ev = StreamRefused e \<or> task s = Streaming t f \<and> ev = StreamBroke e"
  shows "messagesContainer (step v h ev s)
           = messagesContainer s
             @ [\<lparr>el_role = Assistant, textContent = ''Error: '' @ errorMessage_of e, corrections = []\<rparr>]
       \<and> timers (step v h ev s)
           = timers s @ (if sublist ''401'' (errorMessage_of e) \<or> sublist ''API key'' (errorMessage_of e)
                         then [1000] else [])
       \<and> settingsModal_hidden (step v h ev s) = settingsModal_hidden s
       \<and> (timers (step v h ev s) \<noteq> [] \<longrightarrow>
            \<not> settingsModal_hidden (step v h Timeout (step v h ev s)))"
proof -
  from assms have st: "step v h ev s = finally_block (catch_block v e s)" by auto
  show ?thesis unfolding st
    by (simp add: error_element_def showSettings_def split: list.splits)
qed

theorem reply_failure_is_rendered_witness:
  "(task (run Structured sample_host [Input ''hola'', Send] (ChatApp Structured (Some ''sk-bad'') True))
      = AwaitStream \<lparr>correctionsPromise = Some 0, userMessageElement = 0, contentDiv = 1\<rparr>
    \<and> StreamRefused (ErrorObj ''401 Incorrect API key provided'')
        = StreamRefused (ErrorObj ''401 Incorrect API key provided'')
    \<or> task (run Structured sample_host [Input ''hola'', Send] (ChatApp Structured (Some ''sk-bad'') True))
      = Streaming \<lparr>correctionsPromise = Some 0, userMessageElement = 0, contentDiv = 1\<rparr> []
    \<and> StreamRefused (ErrorObj ''401 Incorrect API key provided'')
        = StreamBroke (ErrorObj ''401 Incorrect API key provided''))
   \<and> messagesContainer (step Structured sample_host (StreamRefused (ErrorObj ''401 Incorrect API key provided''))
        (run Structured sample_host [Input ''hola'', Send] (ChatApp Structured (Some ''sk-bad'') True)))
       = messagesContainer (run Structured sample_host [Input ''hola'', Send]
            (ChatApp Structured (Some ''sk-bad'') True))
         @ [\<lparr>el_role = Assistant, textContent = ''Error: 401 Incorrect API key provided'',
             corrections = []\<rparr>]
   \<and> timers (step Structured sample_host (StreamRefused (ErrorObj ''401 Incorrect API key provided''))
        (run Structured sample_host [Input ''hola'', Send] (ChatApp Structured (Some ''sk-bad'') True)))
       = [1000]
   \<and> \<not> settingsModal_hidden (step Structured sample_host Timeout
        (step Structured sample_host (StreamRefused (ErrorObj ''401 Incorrect API key provided''))
          (run Structured sample_host [Input ''hola'', Send] (ChatApp Structured (Some ''sk-bad'') True))))"
proof -
  have t: "task (run Structured sample_host [Input ''hola'', Send] (ChatApp Structured (Some ''sk-bad'') True))
      = AwaitStream \<lparr>correctionsPromise = Some 0, userMessageElement = 0, contentDiv = 1\<rparr>"
    by (simp add: eval_defs)
  have h: "task (run Structured sample_host [Input ''hola'', Send] (ChatApp Structured (Some ''sk-bad'') True))
      = AwaitStream \<lparr>correctionsPromise = Some 0, userMessageElement = 0, contentDiv = 1\<rparr>
    \<and> StreamRefused (ErrorObj ''401 Incorrect API key provided'')
        = StreamRefused (ErrorObj ''401 Incorrect API key provided'')
    \<or> task (run Structured sample_host [Input ''hola'', Send] (ChatApp Structured (Some ''sk-bad'') True))
      = Streaming \<lparr>correctionsPromise = Some 0, userMessageElement = 0, contentDiv = 1\<rparr> []
    \<and> StreamRefused (ErrorObj ''401 Incorrect API key provided'')
        = StreamBroke (ErrorObj ''401 Incorrect API key provided'')"
    using t by simp
  have tm: "timers (run Structured sample_host [Input ''hola'', Send] (ChatApp Structured (Some ''sk-bad'') True))
        @ (if sublist ''401'' (errorMessage_of (ErrorObj ''401 Incorrect API key provided''))
              \<or> sublist ''API key'' (errorMessage_of (ErrorObj ''401 Incorrect API key provided''))
           then [1000] else [])
      = [1000]"
    by (simp add: eval_defs sublist_Cons_right)
  have em: "''Error: '' @ errorMessage_of (ErrorObj ''401 Incorrect API key provided'')
      = ''Error: 401 Incorrect API key provided''"
    by (simp add: errorMessage_of_def)
  note th = reply_failure_is_rendered[OF h, of Structured sample_host, unfolded tm em]
  from th have nz: "timers (step Structured sample_host (StreamRefused (ErrorObj ''401 Incorrect API key provided''))
        (run Structured sample_host [Input ''hola'', Send] (ChatApp Structured (Some ''sk-bad'') True))) \<noteq> []"
    by simp
  from h th nz show ?thesis by blast
qed

text \<open>
  C10. In a turn of \<open>Notes\<close> or \<open>Structured\<close> whose reply path fails, from the failure
  on and whatever happens later (the correction request settling with any result, later
  turns): nothing is ever attached to the element of that turn's user message, and no
  call of \<open>sendMessage\<close> ever awaits the promise of that turn's corrections.
\<close>

theorem failed_reply_discards_corrections:
  assumes "idle s" "trim inp \<noteq> []" "v \<noteq> Plain" "Send \<notin> set es"
    "stream_events es = reply_events rp" "failed rp"
  shows "corrections (messagesContainer (run v h (Input inp # Send # es @ es') s)
                        ! length (messagesContainer s)) = []
       \<and> (\<forall>t. task (run v h (Input inp # Send # es @ es') s) = AwaitCorrections t \<longrightarrow>
                correctionsPromise t \<noteq> Some (length (promises s)))"
proof -
  let ?s1 = "run v h (Input inp # Send # es) s"
  let ?s0 = "s\<lparr>userInput := inp\<rparr>"
  from assms(5,6) obtain e cs where
    r: "stream_events es = reply_events (Refused e) \<and> cs = []
        \<or> stream_events es = reply_events (Broke cs e)"
    by (cases rp) auto
  note tf = turn_fails[OF assms(1,2,4) r, of v h]
  from assms(1,2) have pre: "\<not> isStreaming ?s0" "openai ?s0 \<noteq> None" "trim (userInput ?s0) \<noteq> []"
    by (simp_all add: idle_def)
  from send_idle(5)[OF pre, of v] assms(3)
  have "length (promises (sendMessage v ?s0)) = Suc (length (promises s))" by simp
  with run_promises_length[OF assms(4), of v h "sendMessage v ?s0"]
  have len: "length (promises ?s1) = Suc (length (promises s))" by simp
  from tf len have "abandoned (length (messagesContainer s)) (length (promises s)) ?s1"
    by (simp add: abandoned_def turn_failed_def nth_append new_elements_def)
  from abandoned_run[OF this, of v h es']
  have "abandoned (length (messagesContainer s)) (length (promises s))
          (run v h (Input inp # Send # es @ es') s)"
    by (simp add: run_append)
  then show ?thesis by (auto simp add: abandoned_def)
qed

theorem failed_reply_discards_corrections_witness:
  \<open>idle (ChatApp Structured (Some ''sk-test'') True) \<and> trim ''yo es'' \<noteq> [] \<and> Structured \<noteq> Plain
   \<and> Send \<notin> set [StreamOpened, StreamChunk (text_chunk ''Muy''), StreamBroke (ErrorObj ''terminated'')]
   \<and> stream_events [StreamOpened, StreamChunk (text_chunk ''Muy''), StreamBroke (ErrorObj ''terminated'')] = reply_events (Broke [text_chunk ''Muy''] (ErrorObj ''terminated''))
   \<and> failed (Broke [text_chunk ''Muy''] (ErrorObj ''terminated''))
   \<and> promises (run Structured sample_host (Input ''yo es'' # Send # [StreamOpened, StreamChunk (text_chunk ''Muy''), StreamBroke (ErrorObj ''terminated'')] @ [CorrectionsSettled 0 (text_reply ''{"hasCorrections":true,"corrections":[{"type":"error","original":"yo es","suggestion":"yo soy","explanation":"ser"}]}''), Input ''hola'', Send, StreamOpened, StreamDone, CorrectionsSettled 1 (text_reply ''{"hasCorrections":true,"corrections":[{"type":"error","original":"yo es","suggestion":"yo soy","explanation":"ser"}]}'')]) (ChatApp Structured (Some ''sk-test'') True)) = [Resolved sample_correction, Resolved sample_correction]
   \<and> corrections (messagesContainer (run Structured sample_host (Input ''yo es'' # Send # [StreamOpened, StreamChunk (text_chunk ''Muy''), StreamBroke (ErrorObj ''terminated'')] @ [CorrectionsSettled 0 (text_reply ''{"hasCorrections":true,"corrections":[{"type":"error","original":"yo es","suggestion":"yo soy","explanation":"ser"}]}''), Input ''hola'', Send, StreamOpened, StreamDone, CorrectionsSettled 1 (text_reply ''{"hasCorrections":true,"corrections":[{"type":"error","original":"yo es","suggestion":"yo soy","explanation":"ser"}]}'')]) (ChatApp Structured (Some ''sk-test'') True)) ! length (messagesContainer (ChatApp Structured (Some ''sk-test'') True))) = []\<close>
proof -
  have i: "idle (ChatApp Structured (Some ''sk-test'') True)" by (simp add: ChatApp_with_key(1))
  have t: "trim ''yo es'' \<noteq> []" by (simp add: trim_def is_space_def)
  have v: "Structured \<noteq> Plain" by simp
  have s: \<open>Send \<notin> set [StreamOpened, StreamChunk (text_chunk ''Muy''), StreamBroke (ErrorObj ''terminated'')]\<close> by simp
  have p: \<open>stream_events [StreamOpened, StreamChunk (text_chunk ''Muy''), StreamBroke (ErrorObj ''terminated'')] = reply_events (Broke [text_chunk ''Muy''] (ErrorObj ''terminated''))\<close>
    by (simp add: stream_events_def)
  have f: "failed (Broke [text_chunk ''Muy''] (ErrorObj ''terminated''))" by simp
  have pr: \<open>promises (run Structured sample_host (Input ''yo es'' # Send # [StreamOpened, StreamChunk (text_chunk ''Muy''), StreamBroke (ErrorObj ''terminated'')] @ [CorrectionsSettled 0 (text_reply ''{"hasCorrections":true,"corrections":[{"type":"error","original":"yo es","suggestion":"yo soy","explanation":"ser"}]}''), Input ''hola'', Send, StreamOpened, StreamDone, CorrectionsSettled 1 (text_reply ''{"hasCorrections":true,"corrections":[{"type":"error","original":"yo es","suggestion":"yo soy","explanation":"ser"}]}'')]) (ChatApp Structured (Some ''sk-test'') True)) = [Resolved sample_correction, Resolved sample_correction]\<close>
    by (simp add: eval_defs sample_host_def sample_parse_def correctionsText_def
        sample_correction_def format_correction_def)
  note th = failed_reply_discards_corrections[OF i t v s p f, where h = sample_host
      and es' = \<open>[CorrectionsSettled 0 (text_reply ''{"hasCorrections":true,"corrections":[{"type":"error","original":"yo es","suggestion":"yo soy","explanation":"ser"}]}''), Input ''hola'', Send, StreamOpened, StreamDone, CorrectionsSettled 1 (text_reply ''{"hasCorrections":true,"corrections":[{"type":"error","original":"yo es","suggestion":"yo soy","explanation":"ser"}]}'')]\<close>]
  from th have c: \<open>corrections (messagesContainer (run Structured sample_host (Input ''yo es'' # Send # [StreamOpened, StreamChunk (text_chunk ''Muy''), StreamBroke (ErrorObj ''terminated'')] @ [CorrectionsSettled 0 (text_reply ''{"hasCorrections":true,"corrections":[{"type":"error","original":"yo es","suggestion":"yo soy","explanation":"ser"}]}''), Input ''hola'', Send, StreamOpened, StreamDone, CorrectionsSettled 1 (text_reply ''{"hasCorrections":true,"corrections":[{"type":"error","original":"yo es","suggestion":"yo soy","explanation":"ser"}]}'')]) (ChatApp Structured (Some ''sk-test'') True)) ! length (messagesContainer (ChatApp Structured (Some ''sk-test'') True))) = []\<close>
    by blast
  from i t v s p f pr c show ?thesis by blast
qed


end
